theory Spec2Isabelle
  imports Main "HOL-Library.Word" "HOL-Library.AList"
begin

unbundle bit_operations_syntax

section \<open>Python values\<close>

text \<open>
  A Python \<open>bytes\<close>/\<open>bytearray\<close> is a list of 8-bit words. A Python \<open>str\<close> is the
  list of its Unicode code points; \<open>lit\<close> turns a source literal into that form.
\<close>

type_synonym byte = "8 word"
type_synonym bytes = "byte list"
type_synonym pystr = "nat list"

definition lit :: "string \<Rightarrow> pystr" where
  "lit s = map of_char s"

text \<open>
  Floating-point numbers are kept symbolic: a decimal literal of the source
  (\<open>FLit m e\<close> is the literal with digits \<open>m\<close> and \<open>e\<close> decimal places, so \<open>0.01\<close> is
  \<open>FLit 1 2\<close>), the conversion of an integer, and the floating-point product.
\<close>

datatype pyfloat = FLit int nat | FOfInt int | FMul pyfloat pyfloat

datatype py_value = PInt int | PFloat pyfloat | PStr pystr | PNone

datatype py_error =
    RangeError
  | UnicodeDecodeError
  | TypeError
  | IndexError
  | AttributeError
  | DeviceConnectionError
  | DeviceCommunicationError
  | EstablishConnectionFailed

text \<open>
  Python evaluates the items of a list one after the other; the first one that raises
  ends the evaluation.
\<close>

fun collect :: "('e + 'a) list \<Rightarrow> 'e + 'a list" where
  "collect [] = Inr []"
| "collect (x # xs) =
     (case x of
        Inl e \<Rightarrow> Inl e
      | Inr v \<Rightarrow> (case collect xs of Inl e \<Rightarrow> Inl e | Inr vs \<Rightarrow> Inr (v # vs)))"

subsection \<open>Strings\<close>

text \<open>
  \<open>bytes.decode("utf-8")\<close> in strict mode: the well-formed byte sequences of the
  Unicode standard, anything else raises \<open>UnicodeDecodeError\<close>. \<open>utf8_first\<close> decodes
  the sequence that starts with \<open>b0\<close> and tells how many continuation bytes it took.
\<close>

definition cont :: "byte \<Rightarrow> bool" where
  "cont b = (0x80 \<le> unat b \<and> unat b \<le> 0xBF)"

definition utf8_first :: "byte \<Rightarrow> bytes \<Rightarrow> (nat \<times> nat) option" where
  "utf8_first b0 bs =
     (let c = unat b0 in
      if c < 0x80 then Some (c, 0)
      else if 0xC2 \<le> c \<and> c \<le> 0xDF then
        (case bs of
           b1 # _ \<Rightarrow>
             if cont b1 then Some ((c - 0xC0) * 64 + (unat b1 - 0x80), 1) else None
         | _ \<Rightarrow> None)
      else if 0xE0 \<le> c \<and> c \<le> 0xEF then
        (case bs of
           b1 # b2 # _ \<Rightarrow>
             if (if c = 0xE0 then 0xA0 else 0x80) \<le> unat b1
                \<and> unat b1 \<le> (if c = 0xED then 0x9F else 0xBF) \<and> cont b2
             then Some (((c - 0xE0) * 64 + (unat b1 - 0x80)) * 64 + (unat b2 - 0x80), 2)
             else None
         | _ \<Rightarrow> None)
      else if 0xF0 \<le> c \<and> c \<le> 0xF4 then
        (case bs of
           b1 # b2 # b3 # _ \<Rightarrow>
             if (if c = 0xF0 then 0x90 else 0x80) \<le> unat b1
                \<and> unat b1 \<le> (if c = 0xF4 then 0x8F else 0xBF) \<and> cont b2 \<and> cont b3
             then Some ((((c - 0xF0) * 64 + (unat b1 - 0x80)) * 64 + (unat b2 - 0x80)) * 64
                        + (unat b3 - 0x80), 3)
             else None
         | _ \<Rightarrow> None)
      else None)"

function utf8_decode :: "bytes \<Rightarrow> py_error + pystr" where
  "utf8_decode [] = Inr []"
| "utf8_decode (b0 # bs) =
     (case utf8_first b0 bs of
        None \<Rightarrow> Inl UnicodeDecodeError
      | Some (cp, n) \<Rightarrow>
          (case utf8_decode (drop n bs) of
             Inl e \<Rightarrow> Inl e
           | Inr cps \<Rightarrow> Inr (cp # cps)))"
  by pat_completeness auto
termination
  by (relation "measure length") auto

text \<open>
  \<open>str.strip()\<close> removes the leading and trailing characters for which \<open>str.isspace\<close>
  holds; \<open>str.rstrip(chars)\<close> removes the trailing characters that are in \<open>chars\<close>.
\<close>

definition py_isspace :: "nat \<Rightarrow> bool" where
  "py_isspace c =
     ((9 \<le> c \<and> c \<le> 13) \<or> (28 \<le> c \<and> c \<le> 32) \<or> c = 0x85 \<or> c = 0xA0 \<or> c = 0x1680
      \<or> (0x2000 \<le> c \<and> c \<le> 0x200A) \<or> c = 0x2028 \<or> c = 0x2029 \<or> c = 0x202F
      \<or> c = 0x205F \<or> c = 0x3000)"

definition py_strip :: "pystr \<Rightarrow> pystr" where
  "py_strip s = dropWhile py_isspace (rev (dropWhile py_isspace (rev s)))"

definition py_rstrip :: "pystr \<Rightarrow> pystr \<Rightarrow> pystr" where
  "py_rstrip chars s = rev (dropWhile (\<lambda>c. c \<in> set chars) (rev s))"

text \<open>
  \<open>str.lower()\<close> on ASCII text, which is what a Bluetooth address is: the letters A-Z
  go to a-z. (On other letters Python applies the Unicode case mapping, which is left
  out here: they stay as they are.)
\<close>

definition py_lower :: "pystr \<Rightarrow> pystr" where
  "py_lower s = map (\<lambda>c. if 65 \<le> c \<and> c \<le> 90 then c + 32 else c) s"

text \<open>\<open>s.replace(old, new)\<close> for one-character \<open>old\<close> and \<open>new\<close>.\<close>

definition py_replace :: "nat \<Rightarrow> nat \<Rightarrow> pystr \<Rightarrow> pystr" where
  "py_replace old new s = map (\<lambda>c. if c = old then new else c) s"

text \<open>The decimal digits of a natural number, as \<open>str(n)\<close> and an f-string give them.\<close>

fun py_str :: "nat \<Rightarrow> pystr" where
  "py_str n = (if n < 10 then [48 + n] else py_str (n div 10) @ [48 + n mod 10])"

section \<open>utils.py: binary codec utilities\<close>

text \<open>
  Modelled from the spec: \<open>bytes_to_int\<close> of \<open>utils.py\<close>, which is not among the
  sources. It reads \<open>length\<close> bytes from \<open>offset\<close> as a big-endian integer, two's
  complement over the extracted width if \<open>signed\<close> is set, and multiplies by \<open>scale\<close>;
  it fails with \<open>RangeError\<close> if \<open>offset + length\<close> exceeds the buffer length. With the
  default scale 1.0 the result is an integer: that is \<open>bytes_to_int\<close> here, for the
  calls that pass no scale. With another scale the result is the floating-point
  product: that is \<open>bytes_to_int_scaled\<close>, for the calls that pass one.
\<close>

definition be_nat :: "bytes \<Rightarrow> nat" where
  "be_nat bs = foldl (\<lambda>acc b. acc * 256 + unat b) 0 bs"

definition bytes_to_int :: "bytes \<Rightarrow> nat \<Rightarrow> nat \<Rightarrow> bool \<Rightarrow> py_error + int" where
  "bytes_to_int buffer offset len is_signed =
     (if offset + len > length buffer then Inl RangeError
      else
        let u = int (be_nat (take len (drop offset buffer)))
        in if is_signed \<and> 0 < len \<and> 2 ^ (8 * len - 1) \<le> u then Inr (u - 2 ^ (8 * len))
           else Inr u)"

definition bytes_to_int_scaled ::
  "bytes \<Rightarrow> nat \<Rightarrow> nat \<Rightarrow> pyfloat \<Rightarrow> bool \<Rightarrow> py_error + pyfloat" where
  "bytes_to_int_scaled buffer offset len scale is_signed =
     (case bytes_to_int buffer offset len is_signed of
        Inl e \<Rightarrow> Inl e
      | Inr n \<Rightarrow> Inr (FMul (FOfInt n) scale))"

text \<open>
  Modelled from the spec: \<open>int_to_bytes\<close> of \<open>utils.py\<close>, which is not among the
  sources. It returns the high byte (\<open>byte_index = 0\<close>) or the low byte
  (\<open>byte_index = 1\<close>) of a 16-bit unsigned value; the sources call it with these two
  indices only.
\<close>

definition int_to_bytes :: "16 word \<Rightarrow> nat \<Rightarrow> byte" where
  "int_to_bytes v byte_index = (if byte_index = 0 then ucast (drop_bit 8 v) else ucast v)"

text \<open>
  Modelled from the spec: \<open>crc16_modbus\<close> of \<open>utils.py\<close>, which is not among the
  sources. The standard Modbus CRC-16: reflected, polynomial 0xA001, initial value
  0xFFFF, returned as (low byte, high byte).
\<close>

definition crc16_shift :: "16 word \<Rightarrow> 16 word" where
  "crc16_shift crc = (if bit crc 0 then drop_bit 1 crc XOR 0xA001 else drop_bit 1 crc)"

definition crc16_byte :: "16 word \<Rightarrow> byte \<Rightarrow> 16 word" where
  "crc16_byte crc b = (crc16_shift ^^ 8) (crc XOR ucast b)"

definition crc16_register :: "bytes \<Rightarrow> 16 word" where
  "crc16_register bs = foldl crc16_byte 0xFFFF bs"

definition crc16_modbus :: "bytes \<Rightarrow> byte \<times> byte" where
  "crc16_modbus bs = (let crc = crc16_register bs in (ucast crc, ucast (drop_bit 8 crc)))"

section \<open>device.py: request framing\<close>

text \<open>
  \<open>RenogyDevice.create_generic_read_request\<close>. The register address and the word count
  may be \<open>None\<close>, and then so is the result.
\<close>

definition create_generic_read_request ::
  "byte \<Rightarrow> byte \<Rightarrow> 16 word option \<Rightarrow> 16 word option \<Rightarrow> bytes option" where
  "create_generic_read_request device_id function regAddr readWrd =
     (case (regAddr, readWrd) of
        (Some r, Some w) \<Rightarrow>
          let data = [device_id, function, int_to_bytes r 0, int_to_bytes r 1,
                      int_to_bytes w 0, int_to_bytes w 1];
              crc = crc16_modbus data
          in Some (data @ [fst crc, snd crc])
      | _ \<Rightarrow> None)"

section \<open>device.py: the data model\<close>

datatype RenogyDeviceType =
    TEMPERATURE_SENSOR
  | DOOR_SENSOR
  | VOLTAGE_SENSOR
  | CURRENT_SENSOR
  | AMP_HOURS_SENSOR
  | POWER_SENSOR
  | ENERGY_STORAGE
  | PERCENTAGE
  | STRING_DATA
  | INT_DATA

text \<open>
  The dataclass \<open>RenogyDeviceData\<close>. The attributes are a Python dict, kept as an
  association list in insertion order.
\<close>

record RenogyDeviceData =
  device_id :: int
  device_name :: pystr
  device_unique_id :: pystr
  device_type :: RenogyDeviceType
  name :: pystr
  state :: py_value
  is_main :: bool
  attributes :: "(pystr \<times> py_value) list"

text \<open>One entry of \<open>self.sections\<close>: \<open>{"register": r, "words": w}\<close>.\<close>

record section_descriptor =
  register :: "16 word"
  words :: "16 word"

text \<open>The subclass of \<open>RenogyDevice\<close> an object belongs to; it selects \<open>parse_section\<close>.\<close>

datatype device_class = InverterDevice | DCChargerDevice | ShuntDevice | TestDevice

text \<open>
  The object state of a \<open>RenogyDevice\<close>. The fields \<open>device_name\<close>, \<open>name\<close>,
  \<open>device_type\<close>, \<open>function\<close> and \<open>device_id\<close> of the class carry a prime here, the
  names without it being those of \<open>RenogyDeviceData\<close>. \<open>notification_event\<close> is whether
  the \<open>asyncio.Event\<close> is set, \<open>client\<close> whether \<open>self.client\<close> is not \<open>None\<close>.
  \<open>model\<close> exists on the inverter and the charger, \<open>battery_type\<close> on the charger
  (it can become \<open>None\<close>), \<open>first_parse\<close> on the shunt and the test device; the other
  classes never read them.
\<close>

record RenogyDevice =
  mac :: pystr
  device_name' :: pystr
  ha_device_name :: pystr
  name' :: pystr
  device_type' :: pystr
  function' :: byte
  device_id' :: byte
  sections :: "section_descriptor list"
  section_index :: nat
  notification_event :: bool
  ret_dev_data :: "RenogyDeviceData list"
  NOTIFY_SERVICE_UUID :: "pystr option"
  WRITE_SERVICE_UUID :: "pystr option"
  READ_OPERATION :: int
  client :: bool
  cls :: device_class
  model :: pystr
  battery_type :: "pystr option"
  first_parse :: bool

text \<open>\<open>RenogyDevice.__init__\<close>, for the subclass \<open>c\<close>.\<close>

definition RenogyDevice_init :: "device_class \<Rightarrow> pystr \<Rightarrow> pystr \<Rightarrow> pystr \<Rightarrow> pystr \<Rightarrow> RenogyDevice" where
  "RenogyDevice_init c mac_arg device_name_arg name_arg device_type_arg =
     \<lparr>mac = mac_arg,
      device_name' = device_name_arg,
      ha_device_name = lit ''Default Device Name'',
      name' = name_arg,
      device_type' = device_type_arg,
      function' = 3,
      device_id' = 255,
      sections = [],
      section_index = 0,
      notification_event = False,
      ret_dev_data = [],
      NOTIFY_SERVICE_UUID = None,
      WRITE_SERVICE_UUID = None,
      READ_OPERATION = 3,
      client = False,
      cls = c,
      model = lit ''Unknown'',
      battery_type = Some (lit ''Unknown''),
      first_parse = True\<rparr>"

text \<open>The property \<open>RenogyDevice.device_unique_id\<close>.\<close>

definition device_unique_id' :: "RenogyDevice \<Rightarrow> pystr" where
  "device_unique_id' self =
     lit ''renogy_'' @ py_replace (of_char CHR '':'') (of_char CHR ''_'') (py_lower (mac self))
       @ lit ''_id''"

text \<open>\<open>self.device_unique_id + f"_{entity_id}"\<close>.\<close>

definition entity_unique_id :: "RenogyDevice \<Rightarrow> nat \<Rightarrow> pystr" where
  "entity_unique_id self entity_id = device_unique_id' self @ lit ''_'' @ py_str entity_id"

text \<open>
  The construction of one \<open>RenogyDeviceData\<close>; computing its state may raise, and then
  no object is made.
\<close>

definition entity ::
  "int \<Rightarrow> pystr \<Rightarrow> pystr \<Rightarrow> RenogyDeviceType \<Rightarrow> pystr \<Rightarrow> py_error + py_value \<Rightarrow> bool
     \<Rightarrow> (pystr \<times> py_value) list \<Rightarrow> py_error + RenogyDeviceData" where
  "entity did dname uid dtype nm st main attrs =
     (case st of
        Inl e \<Rightarrow> Inl e
      | Inr v \<Rightarrow>
          Inr \<lparr>device_id = did, device_name = dname, device_unique_id = uid,
               device_type = dtype, name = nm, state = v, is_main = main,
               attributes = attrs\<rparr>)"

text \<open>The dict \<open>{"valid": v, "entities": es}\<close> that \<open>parse_section\<close> returns.\<close>

record parse_result =
  valid :: bool
  entities :: "RenogyDeviceData list"

text \<open>\<open>RenogyDevice.add_devices\<close>.\<close>

definition add_devices :: "RenogyDevice \<Rightarrow> RenogyDevice" where
  "add_devices self =
     self\<lparr>ret_dev_data :=
       map (\<lambda>dev.
              if is_main dev then
                dev\<lparr>attributes :=
                  AList.update (lit ''config_name'') (PStr (name' self))
                    (AList.update (lit ''device_name'') (PStr (py_strip (device_name' self)))
                      (AList.update (lit ''mac'') (PStr (mac self)) (attributes dev)))\<rparr>
              else dev)
           (ret_dev_data self)\<rparr>"

section \<open>Section decoders\<close>

text \<open>
  A decoder gets the object and the payload and returns the object, as the decoder has
  left it, with the result dict; or the exception. Where a decoder raises, it has not
  yet assigned to the object.
\<close>

type_synonym parsed = "py_error + RenogyDevice \<times> parse_result"

definition int_state :: "py_error + int \<Rightarrow> py_error + py_value" where
  "int_state r = (case r of Inl e \<Rightarrow> Inl e | Inr n \<Rightarrow> Inr (PInt n))"

definition float_state :: "py_error + pyfloat \<Rightarrow> py_error + py_value" where
  "float_state r = (case r of Inl e \<Rightarrow> Inl e | Inr x \<Rightarrow> Inr (PFloat x))"

definition float_mul :: "py_error + pyfloat \<Rightarrow> py_error + pyfloat \<Rightarrow> py_error + pyfloat" where
  "float_mul a b =
     (case a of
        Inl e \<Rightarrow> Inl e
      | Inr x \<Rightarrow> (case b of Inl e \<Rightarrow> Inl e | Inr y \<Rightarrow> Inr (FMul x y)))"

definition str_or_none :: "pystr option \<Rightarrow> py_value" where
  "str_or_none v = (case v of None \<Rightarrow> PNone | Some t \<Rightarrow> PStr t)"

text \<open>\<open>d.get(k)\<close> on a dict from integers to strings: \<open>None\<close> for a key it lacks.\<close>

definition dict_get :: "(int \<rightharpoonup> pystr) \<Rightarrow> py_error + int \<Rightarrow> py_error + py_value" where
  "dict_get d k = (case k of Inl e \<Rightarrow> Inl e | Inr n \<Rightarrow> Inr (str_or_none (d n)))"

text \<open>\<open>return {"valid": True, "entities": ret_dev}\<close>, the list built item by item.\<close>

definition return_entities :: "RenogyDevice \<Rightarrow> (py_error + RenogyDeviceData) list \<Rightarrow> parsed" where
  "return_entities self items =
     (case collect items of
        Inl e \<Rightarrow> Inl e
      | Inr ret_dev \<Rightarrow> Inr (self, \<lparr>valid = True, entities = ret_dev\<rparr>))"

definition invalid :: "RenogyDevice \<Rightarrow> parsed" where
  "invalid self = Inr (self, \<lparr>valid = False, entities = []\<rparr>)"

subsection \<open>device\_dc\_charger.py\<close>

definition CHARGING_STATE :: "int \<rightharpoonup> pystr" where
  "CHARGING_STATE =
     map_of [(0, lit ''deactivated''), (1, lit ''activated''), (2, lit ''mppt''),
             (3, lit ''equalizing''), (4, lit ''boost''), (5, lit ''floating''),
             (6, lit ''current limiting''), (8, lit ''alternator direct'')]"

definition BATTERY_TYPE :: "int \<rightharpoonup> pystr" where
  "BATTERY_TYPE =
     map_of [(1, lit ''open''), (2, lit ''sealed''), (3, lit ''gel''), (4, lit ''lithium''),
             (5, lit ''custom'')]"

definition DCChargerDevice_init :: "pystr \<Rightarrow> pystr \<Rightarrow> pystr \<Rightarrow> RenogyDevice" where
  "DCChargerDevice_init mac_arg device_name_arg name_arg =
     (RenogyDevice_init DCChargerDevice mac_arg device_name_arg name_arg (lit ''DcDcCharger''))
       \<lparr>NOTIFY_SERVICE_UUID := Some (lit ''0000fff1-0000-1000-8000-00805f9b34fb''),
        WRITE_SERVICE_UUID := Some (lit ''0000ffd1-0000-1000-8000-00805f9b34fb''),
        ha_device_name := lit ''Renogy DC-DC Charger'',
        model := lit ''Unknown'',
        battery_type := Some (lit ''Unknown''),
        sections :=
          [\<lparr>register = 12, words = 8\<rparr>, \<lparr>register = 26, words = 1\<rparr>,
           \<lparr>register = 288, words = 3\<rparr>, \<lparr>register = 57348, words = 1\<rparr>,
           \<lparr>register = 256, words = 30\<rparr>]\<rparr>"

definition parse_device_info :: "RenogyDevice \<Rightarrow> bytes \<Rightarrow> parsed" where
  "parse_device_info self bs =
     (case utf8_decode (take 16 (drop 3 bs)) of
        Inl e \<Rightarrow> Inl e
      | Inr s \<Rightarrow> Inr (self\<lparr>model := py_strip s\<rparr>, \<lparr>valid = True, entities = []\<rparr>))"

definition parse_device_address :: "RenogyDevice \<Rightarrow> bytes \<Rightarrow> parsed" where
  "parse_device_address self bs =
     return_entities self
       [entity 1 (ha_device_name self) (entity_unique_id self 2) INT_DATA (lit ''Device ID'')
          (int_state (bytes_to_int bs 4 1 False)) False []]"

definition parse_charging_info :: "RenogyDevice \<Rightarrow> bytes \<Rightarrow> parsed" where
  "parse_charging_info self bs =
     return_entities self
       [entity 2 (lit ''Main Battery'') (entity_unique_id self 3) PERCENTAGE (lit ''Battery Percent'')
          (int_state (bytes_to_int bs 3 2 False)) False [],
        entity 2 (lit ''Main Battery'') (entity_unique_id self 4) VOLTAGE_SENSOR (lit ''Battery Voltage'')
          (float_state (bytes_to_int_scaled bs 5 2 (FLit 1 1) False)) False [],
        entity 1 (ha_device_name self) (entity_unique_id self 5) CURRENT_SENSOR (lit ''Combined Charge Current'')
          (float_state (bytes_to_int_scaled bs 7 2 (FLit 1 2) False)) True [(lit ''model'', PStr (model self)), (lit ''battery_type'', str_or_none (battery_type self))],
        entity 1 (ha_device_name self) (entity_unique_id self 6) TEMPERATURE_SENSOR (lit ''Controller Temperature'')
          (int_state (bytes_to_int bs 9 1 False)) False [],
        entity 2 (lit ''Main Battery'') (entity_unique_id self 7) TEMPERATURE_SENSOR (lit ''Battery Temperature'')
          (int_state (bytes_to_int bs 10 1 False)) False [],
        entity 3 (lit ''Alternator'') (entity_unique_id self 8) VOLTAGE_SENSOR (lit ''Alternator Voltage'')
          (float_state (bytes_to_int_scaled bs 11 2 (FLit 1 1) False)) False [],
        entity 3 (lit ''Alternator'') (entity_unique_id self 9) CURRENT_SENSOR (lit ''Alternator Current'')
          (float_state (bytes_to_int_scaled bs 13 2 (FLit 1 2) False)) False [],
        entity 3 (lit ''Alternator'') (entity_unique_id self 10) POWER_SENSOR (lit ''Alternator Power'')
          (int_state (bytes_to_int bs 15 2 False)) False [],
        entity 4 (lit ''Solar'') (entity_unique_id self 11) VOLTAGE_SENSOR (lit ''Solar Voltage'')
          (float_state (bytes_to_int_scaled bs 17 2 (FLit 1 1) False)) False [],
        entity 4 (lit ''Solar'') (entity_unique_id self 12) CURRENT_SENSOR (lit ''Solar Current'')
          (float_state (bytes_to_int_scaled bs 19 2 (FLit 1 2) False)) False [],
        entity 4 (lit ''Solar'') (entity_unique_id self 13) POWER_SENSOR (lit ''Solar Power'')
          (int_state (bytes_to_int bs 21 2 False)) False [],
        entity 1 (ha_device_name self) (entity_unique_id self 14) VOLTAGE_SENSOR (lit ''Batt Min Voltage Today'')
          (float_state (bytes_to_int_scaled bs 25 2 (FLit 1 1) False)) False [],
        entity 1 (ha_device_name self) (entity_unique_id self 15) VOLTAGE_SENSOR (lit ''Batt Max Voltage Today'')
          (float_state (bytes_to_int_scaled bs 27 2 (FLit 1 1) False)) False [],
        entity 1 (ha_device_name self) (entity_unique_id self 16) CURRENT_SENSOR (lit ''Batt Max Current Today'')
          (float_state (bytes_to_int_scaled bs 29 2 (FLit 1 2) False)) False [],
        entity 1 (ha_device_name self) (entity_unique_id self 17) POWER_SENSOR (lit ''Batt Charging Power Today'')
          (int_state (bytes_to_int bs 33 2 False)) False [],
        entity 1 (ha_device_name self) (entity_unique_id self 18) AMP_HOURS_SENSOR (lit ''Charging Amp Hours Today'')
          (int_state (bytes_to_int bs 37 2 False)) False [],
        entity 1 (ha_device_name self) (entity_unique_id self 19) ENERGY_STORAGE (lit ''Power Generation Today'')
          (int_state (bytes_to_int bs 41 2 False)) False [],
        entity 1 (ha_device_name self) (entity_unique_id self 20) INT_DATA (lit ''Total Working Days'')
          (int_state (bytes_to_int bs 45 2 False)) False [],
        entity 1 (ha_device_name self) (entity_unique_id self 21) INT_DATA (lit ''Count Battery Overdischarged'')
          (int_state (bytes_to_int bs 47 2 False)) False [],
        entity 1 (ha_device_name self) (entity_unique_id self 22) INT_DATA (lit ''Count Battery Fully Charged'')
          (int_state (bytes_to_int bs 49 2 False)) False [],
        entity 1 (ha_device_name self) (entity_unique_id self 23) AMP_HOURS_SENSOR (lit ''Total Battery AH Accumulated'')
          (int_state (bytes_to_int bs 51 4 False)) False [],
        entity 1 (ha_device_name self) (entity_unique_id self 24) ENERGY_STORAGE (lit ''Power Generation Total'')
          (int_state (bytes_to_int bs 59 4 False)) False []]"

definition parse_battery_type :: "RenogyDevice \<Rightarrow> bytes \<Rightarrow> parsed" where
  "parse_battery_type self bs =
     (case bytes_to_int bs 3 2 False of
        Inl e \<Rightarrow> Inl e
      | Inr code \<Rightarrow>
          Inr (self\<lparr>battery_type := BATTERY_TYPE code\<rparr>, \<lparr>valid = True, entities = []\<rparr>))"

definition parse_state :: "RenogyDevice \<Rightarrow> bytes \<Rightarrow> parsed" where
  "parse_state self bs =
     return_entities self
       [entity 1 (ha_device_name self) (entity_unique_id self 25) STRING_DATA (lit ''Charge State'')
          (dict_get CHARGING_STATE (bytes_to_int bs 2 1 False)) False []]"

definition DCChargerDevice_parse_section :: "RenogyDevice \<Rightarrow> bytes \<Rightarrow> nat \<Rightarrow> parsed" where
  "DCChargerDevice_parse_section self bs section_index_arg =
     (if section_index_arg = 0 then parse_device_info self bs
      else if section_index_arg = 1 then parse_device_address self bs
      else if section_index_arg = 2 then parse_state self bs
      else if section_index_arg = 3 then parse_battery_type self bs
      else if section_index_arg = 4 then parse_charging_info self bs
      else invalid self)"

subsection \<open>device\_inverter.py\<close>

definition InverterDevice_init :: "pystr \<Rightarrow> pystr \<Rightarrow> pystr \<Rightarrow> RenogyDevice" where
  "InverterDevice_init mac_arg device_name_arg name_arg =
     (RenogyDevice_init InverterDevice mac_arg device_name_arg name_arg (lit ''Inverter''))
       \<lparr>NOTIFY_SERVICE_UUID := Some (lit ''0000fff1-0000-1000-8000-00805f9b34fb''),
        WRITE_SERVICE_UUID := Some (lit ''0000ffd1-0000-1000-8000-00805f9b34fb''),
        ha_device_name := lit ''Renogy Inverter'',
        model := lit ''Unknown'',
        sections :=
          [\<lparr>register = 4311, words = 8\<rparr>, \<lparr>register = 4109, words = 1\<rparr>,
           \<lparr>register = 4000, words = 10\<rparr>, \<lparr>register = 4408, words = 6\<rparr>]\<rparr>"

definition parse_inverter_model :: "RenogyDevice \<Rightarrow> bytes \<Rightarrow> parsed" where
  "parse_inverter_model self bs =
     (case utf8_decode (take 16 (drop 3 bs)) of
        Inl e \<Rightarrow> Inl e
      | Inr s \<Rightarrow> Inr (self\<lparr>model := py_rstrip [0] s\<rparr>, \<lparr>valid = True, entities = []\<rparr>))"

definition parse_device_id :: "RenogyDevice \<Rightarrow> bytes \<Rightarrow> parsed" where
  "parse_device_id self bs =
     return_entities self
       [entity 1 (ha_device_name self) (entity_unique_id self 2) INT_DATA (lit ''Device ID'')
          (int_state (bytes_to_int bs 3 2 False)) False []]"

definition parse_inverter_stats :: "RenogyDevice \<Rightarrow> bytes \<Rightarrow> parsed" where
  "parse_inverter_stats self bs =
     return_entities self
       [entity 1 (ha_device_name self) (entity_unique_id self 3) VOLTAGE_SENSOR (lit ''Input Voltage'')
          (float_state (bytes_to_int_scaled bs 3 2 (FLit 1 1) False)) False [],
        entity 1 (ha_device_name self) (entity_unique_id self 4) CURRENT_SENSOR (lit ''Input Current'')
          (float_state (bytes_to_int_scaled bs 5 2 (FLit 1 2) False)) False [],
        entity 1 (ha_device_name self) (entity_unique_id self 5) VOLTAGE_SENSOR (lit ''Output Voltage'')
          (float_state (bytes_to_int_scaled bs 7 2 (FLit 1 1) False)) False [],
        entity 1 (ha_device_name self) (entity_unique_id self 6) CURRENT_SENSOR (lit ''Output Current'')
          (float_state (bytes_to_int_scaled bs 9 2 (FLit 1 2) False)) True [(lit ''model'', PStr (model self))],
        entity 1 (ha_device_name self) (entity_unique_id self 7) INT_DATA (lit ''Output Frequency'')
          (float_state (bytes_to_int_scaled bs 11 2 (FLit 1 2) False)) False [],
        entity 2 (lit ''Main Battery'') (entity_unique_id self 8) VOLTAGE_SENSOR (lit ''Battery Voltage'')
          (float_state (bytes_to_int_scaled bs 13 2 (FLit 1 1) False)) False [],
        entity 1 (ha_device_name self) (entity_unique_id self 9) TEMPERATURE_SENSOR (lit ''Inverter Temperature'')
          (float_state (bytes_to_int_scaled bs 15 2 (FLit 1 1) False)) False [],
        entity 1 (ha_device_name self) (entity_unique_id self 10) INT_DATA (lit ''Input Frequency'')
          (float_state (bytes_to_int_scaled bs 21 2 (FLit 1 2) False)) False []]"

definition parse_load_info :: "RenogyDevice \<Rightarrow> bytes \<Rightarrow> parsed" where
  "parse_load_info self bs =
     return_entities self
       [entity 1 (ha_device_name self) (entity_unique_id self 18) CURRENT_SENSOR (lit ''Load Current'')
          (float_state (bytes_to_int_scaled bs 3 2 (FLit 1 1) False)) False [],
        entity 1 (ha_device_name self) (entity_unique_id self 19) POWER_SENSOR (lit ''Load Active Power'')
          (int_state (bytes_to_int bs 5 2 False)) False [],
        entity 1 (ha_device_name self) (entity_unique_id self 20) POWER_SENSOR (lit ''Load Apparent Power'')
          (int_state (bytes_to_int bs 7 2 False)) False [],
        entity 1 (ha_device_name self) (entity_unique_id self 22) PERCENTAGE (lit ''Load Percentage'')
          (int_state (bytes_to_int bs 13 2 False)) False []]"

definition InverterDevice_parse_section :: "RenogyDevice \<Rightarrow> bytes \<Rightarrow> nat \<Rightarrow> parsed" where
  "InverterDevice_parse_section self bs section_index_arg =
     (if section_index_arg = 0 then parse_inverter_model self bs
      else if section_index_arg = 1 then parse_device_id self bs
      else if section_index_arg = 2 then parse_inverter_stats self bs
      else if section_index_arg = 3 then parse_load_info self bs
      else invalid self)"

subsection \<open>device\_shunt.py\<close>

definition ShuntDevice_init :: "pystr \<Rightarrow> pystr \<Rightarrow> pystr \<Rightarrow> RenogyDevice" where
  "ShuntDevice_init mac_arg device_name_arg name_arg =
     (RenogyDevice_init ShuntDevice mac_arg device_name_arg name_arg (lit ''SmartShunt300''))
       \<lparr>NOTIFY_SERVICE_UUID := Some (lit ''0000c411-0000-1000-8000-00805f9b34fb''),
        READ_OPERATION := 87,
        ha_device_name := lit ''Renogy Battery'',
        sections := [\<lparr>register = 256, words = 110\<rparr>],
        first_parse := True\<rparr>"

definition ShuntDevice_parse_section :: "RenogyDevice \<Rightarrow> bytes \<Rightarrow> nat \<Rightarrow> parsed" where
  "ShuntDevice_parse_section self0 bs section_index_arg =
     (if section_index_arg \<noteq> 0 \<or> \<not> first_parse self0 \<or> length bs < 110 then invalid self0
      else
        let self = self0\<lparr>first_parse := False\<rparr>;
            volts = bytes_to_int_scaled bs 25 3 (FLit 1 3) False;
            amps = bytes_to_int_scaled bs 21 3 (FLit 1 3) True
        in return_entities self
       [entity 1 (ha_device_name self) (entity_unique_id self 1) PERCENTAGE (lit ''Main Battery Percent'')
          (float_state (bytes_to_int_scaled bs 34 2 (FLit 1 1) False)) True [],
        entity 1 (ha_device_name self) (entity_unique_id self 2) VOLTAGE_SENSOR (lit ''Main Battery Voltage'')
          (float_state volts) False [],
        entity 2 (lit ''Starter Battery'') (entity_unique_id self 3) VOLTAGE_SENSOR (lit ''Starter Battery Voltage'')
          (float_state (bytes_to_int_scaled bs 30 2 (FLit 1 3) False)) False [],
        entity 1 (ha_device_name self) (entity_unique_id self 4) CURRENT_SENSOR (lit ''Charge Amps'')
          (float_state amps) False [],
        entity 1 (ha_device_name self) (entity_unique_id self 5) POWER_SENSOR (lit ''Charge Watts'')
          (float_state (float_mul volts amps)) False [],
        entity 1 (ha_device_name self) (entity_unique_id self 6) TEMPERATURE_SENSOR (lit ''Main Battery Temperature'')
          (float_state (bytes_to_int_scaled bs 66 2 (FLit 1 1) False)) False []])"

subsection \<open>device\_test.py\<close>

definition TestDevice_init :: "pystr \<Rightarrow> pystr \<Rightarrow> pystr \<Rightarrow> RenogyDevice" where
  "TestDevice_init mac_arg device_name_arg name_arg =
     (RenogyDevice_init TestDevice mac_arg device_name_arg name_arg (lit ''SmartShunt300''))
       \<lparr>NOTIFY_SERVICE_UUID := Some (lit ''TEST''),
        WRITE_SERVICE_UUID := Some (lit ''TEST''),
        ha_device_name := lit ''Renogy Battery'',
        first_parse := True,
        sections := [\<lparr>register = 256, words = 110\<rparr>]\<rparr>"

definition TestDevice_parse_section :: "RenogyDevice \<Rightarrow> bytes \<Rightarrow> nat \<Rightarrow> parsed" where
  "TestDevice_parse_section self0 bs section_index_arg =
     (if section_index_arg \<noteq> 0 \<or> \<not> first_parse self0 then invalid self0
      else
        let self = self0\<lparr>first_parse := False\<rparr>;
            volts = Inr (FLit 136 1);
            amps = Inr (FLit 315 2);
            volts' = Inr (FLit 1245 2)
        in return_entities self
       [entity 1 (ha_device_name self) (entity_unique_id self 1) PERCENTAGE (lit ''Main Battery Percent'')
          (Inr (PFloat (FLit 852 1))) True [(lit ''model'', PStr (lit ''SmartShunt300''))],
        entity 1 (ha_device_name self) (entity_unique_id self 2) VOLTAGE_SENSOR (lit ''Main Battery Voltage'')
          (float_state volts) False [],
        entity 2 (lit ''Starter Battery'') (entity_unique_id self 3) VOLTAGE_SENSOR (lit ''Starter Battery Voltage'')
          (Inr (PFloat (FLit 126 1))) False [],
        entity 1 (ha_device_name self) (entity_unique_id self 4) CURRENT_SENSOR (lit ''Charge Amps'')
          (float_state amps) False [],
        entity 1 (ha_device_name self) (entity_unique_id self 5) POWER_SENSOR (lit ''Charge Watts'')
          (float_state (float_mul volts amps)) False [],
        entity 1 (ha_device_name self) (entity_unique_id self 6) TEMPERATURE_SENSOR (lit ''Main Battery Temperature'')
          (Inr (PFloat (FLit 121 1))) False [],
        entity 1 (ha_device_name self) (entity_unique_id self 7) VOLTAGE_SENSOR (lit ''Main Battery Voltage (Test)'')
          (float_state volts') False [(lit ''test_attribute'', PStr (lit ''test_value''))]])"

subsection \<open>The method call \<open>self.parse_section\<close>\<close>

definition parse_section :: "RenogyDevice \<Rightarrow> bytes \<Rightarrow> nat \<Rightarrow> parsed" where
  "parse_section self bs section_index_arg =
     (case cls self of
        InverterDevice \<Rightarrow> InverterDevice_parse_section self bs section_index_arg
      | DCChargerDevice \<Rightarrow> DCChargerDevice_parse_section self bs section_index_arg
      | ShuntDevice \<Rightarrow> ShuntDevice_parse_section self bs section_index_arg
      | TestDevice \<Rightarrow> TestDevice_parse_section self bs section_index_arg)"

section \<open>device.py: the session\<close>

text \<open>
  \<open>RenogyDevice.notification_callback\<close>. The transport runs it for each
  notification; an exception it raises ends the callback and leaves the object as it
  was.
\<close>

definition notification_callback :: "RenogyDevice \<Rightarrow> bytes \<Rightarrow> py_error + RenogyDevice" where
  "notification_callback self data =
     (case bytes_to_int data 1 1 False of
        Inl e \<Rightarrow> Inl e
      | Inr operation \<Rightarrow>
          if operation = READ_OPERATION self then
            (case parse_section self data (section_index self) of
               Inl e \<Rightarrow> Inl e
             | Inr (self1, items) \<Rightarrow>
                 if valid items then
                   Inr (self1\<lparr>ret_dev_data := ret_dev_data self1 @ entities items,
                              notification_event := True\<rparr>)
                 else Inr self1)
          else Inr self)"

subsection \<open>The transport\<close>

text \<open>
  The Bluetooth link is outside the sources; the session sees it through the calls it
  makes and the notifications it gets. \<open>calls\<close> records the calls in order.
  \<open>is_connected\<close> is what \<open>establish_connection\<close> will do: \<open>None\<close> if it raises,
  otherwise the client's \<open>is_connected\<close>. The session gives up control to the event
  loop in \<open>asyncio.sleep(.2)\<close>, and the callbacks of the notifications that have arrived
  run there: \<open>ticks\<close> lists, for each coming sleep, the notifications of that sleep in
  order; after its end nothing arrives any more. The other calls of the transport are
  taken to return without raising.
\<close>

datatype transport_call =
    EstablishConnection pystr
  | StartNotify pystr
  | WriteGattChar "pystr option" bytes
  | Disconnect

record link =
  is_connected :: "bool option"
  ticks :: "bytes list list"
  calls :: "transport_call list"

record BLEDevice =
  address :: pystr
  ble_name :: pystr

definition deliver :: "RenogyDevice \<Rightarrow> bytes list \<Rightarrow> RenogyDevice" where
  "deliver self ds =
     foldl (\<lambda>s data. case notification_callback s data of Inl e \<Rightarrow> s | Inr s1 \<Rightarrow> s1) self ds"

text \<open>
  \<open>RenogyDevice.read_section\<close>; what it raises comes with the state at that point. (With
  an empty section list the method logs an error and goes on, into the \<open>IndexError\<close>.)
\<close>

definition read_section :: "RenogyDevice \<Rightarrow> link \<Rightarrow> py_error option \<times> RenogyDevice \<times> link" where
  "read_section self0 lk =
     (let index = section_index self0;
          self = self0\<lparr>notification_event := False\<rparr>
      in if index < length (sections self) then
           (case create_generic_read_request (device_id' self) (function' self)
                   (Some (register (sections self ! index)))
                   (Some (words (sections self ! index))) of
              None \<Rightarrow> (Some TypeError, self, lk)
            | Some request \<Rightarrow>
                (None, self,
                 lk\<lparr>calls := calls lk @ [WriteGattChar (WRITE_SERVICE_UUID self) request]\<rparr>))
         else (Some IndexError, self, lk))"

text \<open>The loops of \<open>RenogyDevice.execute\<close>, innermost first.\<close>

function wait_loop :: "nat \<Rightarrow> RenogyDevice \<Rightarrow> link \<Rightarrow> RenogyDevice \<times> link" where
  "wait_loop countwait self lk =
     (if countwait < 25 \<and> \<not> notification_event self then
        (case ticks lk of
           [] \<Rightarrow> wait_loop (countwait + 1) self lk
         | t # ts \<Rightarrow> wait_loop (countwait + 1) (deliver self t) (lk\<lparr>ticks := ts\<rparr>))
      else (self, lk))"
  by pat_completeness auto
termination
  by (relation "measure (\<lambda>(countwait, self, lk). 25 - countwait)") auto

function send_loop ::
  "nat \<Rightarrow> nat \<Rightarrow> RenogyDevice \<Rightarrow> link \<Rightarrow> py_error option \<times> nat \<times> RenogyDevice \<times> link" where
  "send_loop countsent recieved self lk =
     (if countsent < 2 \<and> recieved = 0 then
        (case (if WRITE_SERVICE_UUID self \<noteq> None then read_section self lk
               else (None, self, lk)) of
           (Some e, self1, lk1) \<Rightarrow> (Some e, recieved, self1, lk1)
         | (None, self1, lk1) \<Rightarrow>
             (case wait_loop 0 self1 lk1 of
                (self2, lk2) \<Rightarrow>
                  send_loop (countsent + 1)
                    (if notification_event self2 then 1 else recieved) self2 lk2))
      else (None, recieved, self, lk))"
  by pat_completeness auto
termination
  by (relation "measure (\<lambda>(countsent, recieved, self, lk). 2 - countsent)") auto

text \<open>
  The loop over the sections raises \<open>DeviceCommunicationError\<close> when both attempts have
  brought no response. It ends because each round moves the section index one forward,
  and neither the decoders nor the inner loops touch the index or the section list: that
  is what the termination proof shows.
\<close>

function section_loop :: "RenogyDevice \<Rightarrow> link \<Rightarrow> py_error option \<times> RenogyDevice \<times> link" where
  "section_loop self lk =
     (if section_index self < length (sections self) then
        (case send_loop 0 0 self lk of
           (Some e, recieved, self1, lk1) \<Rightarrow> (Some e, self1, lk1)
         | (None, recieved, self1, lk1) \<Rightarrow>
             if recieved = 1 then
               section_loop (self1\<lparr>section_index := section_index self1 + 1\<rparr>) lk1
             else (Some DeviceCommunicationError, self1, lk1))
      else (None, self, lk))"
  by pat_completeness auto
termination
proof (relation "measure (\<lambda>(self, lk). length (sections self) - section_index self)")
  show "wf (measure (\<lambda>(self, lk). length (sections self) - section_index self))"
    by simp
next
  fix self :: RenogyDevice and lk :: link and x y xa ya xb yb
  assume idx: "section_index self < length (sections self)"
    and run: "(x, y) = send_loop 0 0 self lk" "x = None" "(xa, ya) = y" "(xb, yb) = ya"
      "xa = 1"
  let ?same = "\<lambda>s1 s. sections s1 = sections s \<and> section_index s1 = section_index s"
  have ret: "?same s1 s" if "return_entities s items = Inr (s1, r)" for s items s1 r
    using that by (auto simp: return_entities_def split: sum.splits)
  have inv: "?same s1 s" if "invalid s = Inr (s1, r)" for s s1 r
    using that by (simp add: invalid_def)
  have dc: "?same s1 s" if "DCChargerDevice_parse_section s bs i = Inr (s1, r)" for s bs i s1 r
  proof -
    have "?same s1 s" if "parse_device_info s bs = Inr (s1, r)"
      using that by (auto simp: parse_device_info_def split: sum.splits)
    moreover have "?same s1 s" if "parse_battery_type s bs = Inr (s1, r)"
      using that by (auto simp: parse_battery_type_def split: sum.splits)
    moreover have "?same s1 s" if "parse_device_address s bs = Inr (s1, r)"
      using that unfolding parse_device_address_def by (rule ret)
    moreover have "?same s1 s" if "parse_state s bs = Inr (s1, r)"
      using that unfolding parse_state_def by (rule ret)
    moreover have "?same s1 s" if "parse_charging_info s bs = Inr (s1, r)"
      using that unfolding parse_charging_info_def by (rule ret)
    ultimately show ?thesis
      using that inv unfolding DCChargerDevice_parse_section_def
      by (metis (no_types, lifting))
  qed
  have iv: "?same s1 s" if "InverterDevice_parse_section s bs i = Inr (s1, r)" for s bs i s1 r
  proof -
    have "?same s1 s" if "parse_inverter_model s bs = Inr (s1, r)"
      using that by (auto simp: parse_inverter_model_def split: sum.splits)
    moreover have "?same s1 s" if "parse_device_id s bs = Inr (s1, r)"
      using that unfolding parse_device_id_def by (rule ret)
    moreover have "?same s1 s" if "parse_inverter_stats s bs = Inr (s1, r)"
      using that unfolding parse_inverter_stats_def by (rule ret)
    moreover have "?same s1 s" if "parse_load_info s bs = Inr (s1, r)"
      using that unfolding parse_load_info_def by (rule ret)
    ultimately show ?thesis
      using that inv unfolding InverterDevice_parse_section_def
      by (metis (no_types, lifting))
  qed
  have sh: "?same s1 s" if "ShuntDevice_parse_section s bs i = Inr (s1, r)" for s bs i s1 r
  proof (cases "i \<noteq> 0 \<or> \<not> first_parse s \<or> length bs < 110")
    case True
    then show ?thesis using that inv by (simp add: ShuntDevice_parse_section_def)
  next
    case False
    then show ?thesis
      using that by (auto simp: ShuntDevice_parse_section_def Let_def dest!: ret)
  qed
  have te: "?same s1 s" if "TestDevice_parse_section s bs i = Inr (s1, r)" for s bs i s1 r
  proof (cases "i \<noteq> 0 \<or> \<not> first_parse s")
    case True
    then show ?thesis using that inv by (simp add: TestDevice_parse_section_def)
  next
    case False
    then show ?thesis
      using that by (auto simp: TestDevice_parse_section_def Let_def dest!: ret)
  qed
  have parse: "?same s1 s" if "parse_section s bs i = Inr (s1, r)" for s bs i s1 r
    using that dc iv sh te by (cases "cls s") (simp_all add: parse_section_def)
  have cb: "?same s1 s" if "notification_callback s d = Inr s1" for s d s1
    using that parse
    by (fastforce simp: notification_callback_def split: sum.splits if_splits prod.splits)
  have dl: "?same (deliver s ds) s" for s ds
  proof (induction ds arbitrary: s)
    case Nil
    show ?case by (simp add: deliver_def)
  next
    case (Cons d ds)
    have step: "deliver s (d # ds)
        = deliver (case notification_callback s d of Inl e \<Rightarrow> s | Inr s1 \<Rightarrow> s1) ds"
      by (simp add: deliver_def)
    show ?case
      unfolding step using Cons.IH cb by (auto split: sum.splits)
  qed
  have wl: "?same (fst (wait_loop c s l)) s" for c s l
  proof (induction c s l rule: wait_loop.induct)
    case (1 countwait s l)
    show ?case
      by (subst (1 2) wait_loop.simps) (use 1 dl in \<open>auto split: list.splits\<close>)
  qed
  have rs: "?same (fst (snd (read_section s l))) s" for s l
    by (auto simp: read_section_def Let_def split: option.splits)
  have sl: "?same (fst (snd (snd (send_loop c r s l)))) s" for c r s l
  proof (induction c r s l rule: send_loop.induct)
    case (1 countsent recieved s l)
    show ?case
    proof (cases "countsent < 2 \<and> recieved = 0")
      case False
      then show ?thesis by (subst (1 2) send_loop.simps) auto
    next
      case True
      obtain e s1 l1 where step1:
        "(if WRITE_SERVICE_UUID s \<noteq> None then read_section s l else (None, s, l)) = (e, s1, l1)"
        by (metis prod_cases3)
      have s1: "?same s1 s"
        using step1 rs [of s l] by (auto split: if_splits)
      show ?thesis
      proof (cases e)
        case (Some err)
        then show ?thesis
          using True step1 s1 by (subst (1 2) send_loop.simps) auto
      next
        case None
        obtain s2 l2 where step2: "wait_loop 0 s1 l1 = (s2, l2)"
          by (metis surj_pair)
        have s2: "?same s2 s"
          using wl [of 0 s1 l1] step2 s1 by simp
        have "?same (fst (snd (snd (send_loop (countsent + 1)
                 (if notification_event s2 then 1 else recieved) s2 l2)))) s2"
          using "1.IH" [OF True step1 [symmetric] None refl step2 [symmetric]] .
        then show ?thesis
          using True step1 None step2 s2 by (subst (1 2) send_loop.simps) auto
      qed
    qed
  qed
  have "xb = fst (snd (snd (send_loop 0 0 self lk)))"
    using run by (metis fst_conv snd_conv)
  then have "?same xb self"
    using sl [of 0 0 self lk] by simp
  then show "((xb\<lparr>section_index := section_index xb + 1\<rparr>, yb), self, lk)
      \<in> measure (\<lambda>(self, lk). length (sections self) - section_index self)"
    using idx by simp
qed

text \<open>The loops are unfolded one step at a time, where a proof says so.\<close>

declare wait_loop.simps [simp del] send_loop.simps [simp del] section_loop.simps [simp del]

text \<open>
  \<open>RenogyDevice.execute\<close>. The result is the returned list, the exception that the
  \<open>except\<close> clause has caught (if one was raised), the object and the link afterwards.
  \<open>caught\<close> is the \<open>except\<close> clause, \<open>finish\<close> the two statements after the \<open>try\<close>.
\<close>

type_synonym executed = "RenogyDeviceData list \<times> py_error option \<times> RenogyDevice \<times> link"

definition caught :: "py_error \<Rightarrow> RenogyDevice \<Rightarrow> link \<Rightarrow> executed" where
  "caught e self lk =
     ([], Some e, self, if client self then lk\<lparr>calls := calls lk @ [Disconnect]\<rparr> else lk)"

definition finish :: "RenogyDevice \<Rightarrow> link \<Rightarrow> executed" where
  "finish self lk = (let self1 = add_devices self in (ret_dev_data self1, None, self1, lk))"

definition execute :: "RenogyDevice \<Rightarrow> BLEDevice option \<Rightarrow> link \<Rightarrow> executed" where
  "execute self0 ble_device lk =
     (let self = self0\<lparr>client := False\<rparr> in
      if WRITE_SERVICE_UUID self \<noteq> Some (lit ''TEST'') then
        (case NOTIFY_SERVICE_UUID self of
           None \<Rightarrow> ([], None, self, lk)
         | Some notify_uuid \<Rightarrow>
             (case ble_device of
                None \<Rightarrow> caught AttributeError self lk
              | Some dev \<Rightarrow>
                  let lk1 = lk\<lparr>calls := calls lk @ [EstablishConnection (address dev)]\<rparr> in
                  (case is_connected lk1 of
                     None \<Rightarrow> caught EstablishConnectionFailed self lk1
                   | Some connected \<Rightarrow>
                       let self1 = self\<lparr>client := True\<rparr> in
                       if \<not> connected then caught DeviceConnectionError self1 lk1
                       else
                         let lk2 = lk1\<lparr>calls := calls lk1 @ [StartNotify notify_uuid]\<rparr> in
                         (case section_loop self1 lk2 of
                            (Some e, self2, lk3) \<Rightarrow> caught e self2 lk3
                          | (None, self2, lk3) \<Rightarrow>
                              finish self2 (lk3\<lparr>calls := calls lk3 @ [Disconnect]\<rparr>)))))
      else
        (case parse_section self (map of_char ''ab232'') (section_index self) of
           Inl e \<Rightarrow> caught e self lk
         | Inr (self1, items) \<Rightarrow>
             finish
               (if valid items then
                  self1\<lparr>ret_dev_data := ret_dev_data self1 @ entities items,
                         notification_event := True\<rparr>
                else self1)
               lk))"

section \<open>api.py: dispatch\<close>

datatype api_error = ConfigEntryNotReady | APIConnectionError

text \<open>The object state of \<open>API\<close>; its fields carry the prefix \<open>api_\<close> here.\<close>

record API =
  api_mac :: pystr
  api_name :: pystr
  api_device_name :: "pystr option"
  api_device_type :: pystr
  lastUpdateValid :: bool

definition API_init :: "pystr \<Rightarrow> pystr \<Rightarrow> pystr \<Rightarrow> API" where
  "API_init mac_arg name_arg device_type_arg =
     \<lparr>api_mac = mac_arg, api_name = name_arg, api_device_name = None,
      api_device_type = device_type_arg, lastUpdateValid = False\<rparr>"

text \<open>
  \<open>API.get_devices\<close>. \<open>found\<close> is what \<open>bluetooth.async_ble_device_from_address\<close>
  gives for the address, \<open>None\<close> if the host knows no such device. The result is the
  returned list or the exception raised, with the object and the link afterwards.
\<close>

definition get_devices ::
  "API \<Rightarrow> BLEDevice option \<Rightarrow> link \<Rightarrow> (api_error + RenogyDeviceData list) \<times> API \<times> link" where
  "get_devices api0 found lk =
     (let api = api0\<lparr>lastUpdateValid := False\<rparr> in
      if api_device_type api \<noteq> lit ''TestDevice'' \<and> found = None then
        (Inl ConfigEntryNotReady, api, lk)
      else
        let ble_device = (if api_device_type api \<noteq> lit ''TestDevice'' then found else None);
            device_name_val =
              (case ble_device of Some dev \<Rightarrow> ble_name dev | None \<Rightarrow> lit ''Test_A1234'');
            api1 = api\<lparr>api_device_name := Some device_name_val\<rparr>;
            (devicesRet, lk1) =
              (if api_device_type api1 = lit ''Inverter'' then
                 (case execute (InverterDevice_init (api_mac api1) device_name_val (api_name api1))
                         ble_device lk of
                    (ret, e, self, lk1) \<Rightarrow> (ret, lk1))
               else if api_device_type api1 = lit ''DcDcCharger'' then
                 (case execute (DCChargerDevice_init (api_mac api1) device_name_val (api_name api1))
                         ble_device lk of
                    (ret, e, self, lk1) \<Rightarrow> (ret, lk1))
               else if api_device_type api1 = lit ''SmartShunt300'' then
                 (case execute (ShuntDevice_init (api_mac api1) device_name_val (api_name api1))
                         ble_device lk of
                    (ret, e, self, lk1) \<Rightarrow> (ret, lk1))
               else if api_device_type api1 = lit ''TestDevice'' then
                 (case execute (TestDevice_init (api_mac api1) device_name_val (api_name api1))
                         None lk of
                    (ret, e, self, lk1) \<Rightarrow> (ret, lk1))
               else ([], lk))
        in if length devicesRet = 0 then (Inl APIConnectionError, api1, lk1)
           else (Inr devicesRet, api1\<lparr>lastUpdateValid := True\<rparr>, lk1))"

section \<open>Request framing\<close>

lemma hi_lo_word: "256 * unat (ucast (drop_bit 8 v) :: byte) + unat (ucast v :: byte) = unat (v :: 16 word)"
proof -
  have lo: "unat (ucast v :: byte) = unat v mod 256"
    by (simp add: unsigned_ucast_eq take_bit_eq_mod)
  have "unat (drop_bit 8 v) = unat v div 256"
    by (simp add: drop_bit_eq_div unat_div_distrib)
  moreover have "unat v < 65536"
    using unsigned_less [of v, where ?'a = nat] by simp
  ultimately have hi: "unat (ucast (drop_bit 8 v) :: byte) = unat v div 256"
    by (simp add: unsigned_ucast_eq take_bit_eq_mod)
  show ?thesis
    unfolding lo hi by simp
qed

lemma int_to_bytes_hi_lo:
  "256 * unat (int_to_bytes v 0) + unat (int_to_bytes v 1) = unat v"
  using hi_lo_word [of v] by (simp add: int_to_bytes_def)

lemma crc16_modbus_lo_hi:
  "256 * unat (snd (crc16_modbus bs)) + unat (fst (crc16_modbus bs)) = unat (crc16_register bs)"
  using hi_lo_word [of "crc16_register bs"] by (simp add: crc16_modbus_def Let_def)

text \<open>
  Claim C2. For every device id and function (bytes) and every register and word count
  (16-bit values), the read request is a frame of exactly 8 bytes: the device id, the
  function, the high and the low byte of the register, the high and the low byte of
  the word count, and the CRC-16/Modbus of these six bytes, low byte first.
  Recomputing the checksum over the first six bytes of the frame gives the last two.
\<close>

theorem create_generic_read_request_frame:
  "\<exists>frame. create_generic_read_request dev fn (Some reg) (Some wc) = Some frame
     \<and> length frame = 8
     \<and> frame ! 0 = dev \<and> frame ! 1 = fn
     \<and> 256 * unat (frame ! 2) + unat (frame ! 3) = unat reg
     \<and> 256 * unat (frame ! 4) + unat (frame ! 5) = unat wc
     \<and> crc16_modbus (take 6 frame) = (frame ! 6, frame ! 7)
     \<and> 256 * unat (frame ! 7) + unat (frame ! 6) = unat (crc16_register (take 6 frame))"
  using int_to_bytes_hi_lo [of reg] int_to_bytes_hi_lo [of wc]
    crc16_modbus_lo_hi [of "[dev, fn, int_to_bytes reg 0, int_to_bytes reg 1, int_to_bytes wc 0, int_to_bytes wc 1]"]
  by (simp add: create_generic_read_request_def Let_def)

theorem create_generic_read_request_frame_witness:
  "create_generic_read_request 255 3 (Some 256) (Some 110) = Some [255, 3, 1, 0, 0, 110, 208, 4]
     \<and> crc16_modbus [255, 3, 1, 0, 0, 110] = (208, 4)"
proof -
  have v: "create_generic_read_request 255 3 (Some 256) (Some 110)
      = Some [255, 3, 1, 0, 0, 110, 208, 4]"
    by code_simp
  have t: "take 6 [255, 3, 1, 0, 0, 110, 208, 4 :: byte] = [255, 3, 1, 0, 0, 110]"
    by code_simp
  show ?thesis
    using create_generic_read_request_frame [of 255 3 256 110] unfolding v
    by (auto simp: t)
qed

section \<open>Facts about the decoders\<close>

lemma collect_map_Inr: "collect (map Inr vs) = Inr vs"
  by (induction vs) simp_all

lemma collect_Inr: "collect xs = Inr vs \<longleftrightarrow> xs = map Inr vs"
proof
  show "collect xs = Inr vs \<Longrightarrow> xs = map Inr vs"
    by (induction xs arbitrary: vs) (auto split: sum.splits)
qed (simp add: collect_map_Inr)

lemma entity_Inr:
  "entity did dname uid dtype nm st main attrs = Inr e \<longleftrightarrow>
     (\<exists>v. st = Inr v \<and> e = \<lparr>device_id = did, device_name = dname, device_unique_id = uid,
        device_type = dtype, name = nm, state = v, is_main = main, attributes = attrs\<rparr>)"
  by (auto simp: entity_def split: sum.splits)

lemma return_entities_Inr:
  "return_entities self items = Inr (s1, r) \<longleftrightarrow>
     (\<exists>es. collect items = Inr es \<and> s1 = self \<and> r = \<lparr>valid = True, entities = es\<rparr>)"
  by (auto simp: return_entities_def split: sum.splits)

lemma parse_charging_info_main:
  assumes "parse_charging_info self bs = Inr (s1, r)"
  shows "s1 = self \<and> valid r \<and> length (entities r) = 22 \<and>
    (\<exists>v. filter is_main (entities r) =
       [\<lparr>device_id = 1, device_name = ha_device_name self,
         device_unique_id = entity_unique_id self 5, device_type = CURRENT_SENSOR,
         name = lit ''Combined Charge Current'', state = v, is_main = True,
         attributes = [(lit ''model'', PStr (model self)),
                       (lit ''battery_type'', str_or_none (battery_type self))]\<rparr>])"
  using assms unfolding parse_charging_info_def return_entities_Inr collect_Inr
  by (auto simp: Cons_eq_map_conv entity_Inr)


lemma bytes_to_int_1:
  "off < length bs \<Longrightarrow> bytes_to_int bs off 1 False = Inr (uint (bs ! off))"
proof -
  assume a: "off < length bs"
  then have "take 1 (drop off bs) = [bs ! off]"
    by (simp add: take_Suc_conv_app_nth)
  then show ?thesis
    using a by (simp add: bytes_to_int_def be_nat_def)
qed

lemma bytes_to_int_2:
  "off + 2 \<le> length bs \<Longrightarrow>
     bytes_to_int bs off 2 False = Inr (256 * uint (bs ! off) + uint (bs ! (off + 1)))"
proof -
  assume a: "off + 2 \<le> length bs"
  then have "take 2 (drop off bs) = [bs ! off, bs ! (off + 1)]"
    by (simp add: take_Suc_conv_app_nth numeral_2_eq_2 add.commute)
  then show ?thesis
    using a by (simp add: bytes_to_int_def be_nat_def)
qed

lemma CHARGING_STATE_dom: "dom CHARGING_STATE = {0, 1, 2, 3, 4, 5, 6, 8}"
  by (auto simp: CHARGING_STATE_def split: if_splits)

lemma BATTERY_TYPE_dom: "dom BATTERY_TYPE = {1, 2, 3, 4, 5}"
  by (auto simp: BATTERY_TYPE_def split: if_splits)

section \<open>The tables of the DC-DC charger\<close>

text \<open>
  Claim C6, as stated, fails: the charging-state table has no entry for code 7, which
  lies between 0 and 8, so a state section with that code gives no state name.
\<close>

theorem charging_state_table_counterexample:
  "CHARGING_STATE 7 = None
     \<and> dict_get CHARGING_STATE (bytes_to_int [255, 3, 7] 2 1 False) = Inr PNone"
proof -
  have "bytes_to_int [255, 3, 7] 2 1 False = Inr 7"
    using bytes_to_int_1 [of 2 "[255, 3, 7]"] by simp
  then show ?thesis
    by (simp add: CHARGING_STATE_def dict_get_def str_or_none_def)
qed

text \<open>
  Claim C6, amended. The charging-state table of the DC-DC charger has 8 entries, for
  the codes 0 to 6 and 8 (none for 7), from \<open>deactivated\<close> to \<open>alternator direct\<close>;
  the battery-type table is \<open>{1: open, 2: sealed, 3: gel, 4: lithium, 5: custom}\<close>. The
  state section (index 2) maps the byte at offset 2 through the first table into the
  one measurement \<open>Charge State\<close>; the battery-type section (index 3) maps the 2-byte
  value at offset 3 through the second table into the cached battery type.
\<close>

theorem dc_charger_tables:
  "dom CHARGING_STATE = {0, 1, 2, 3, 4, 5, 6, 8} \<and> card (dom CHARGING_STATE) = 8
   \<and> CHARGING_STATE 0 = Some (lit ''deactivated'')
   \<and> CHARGING_STATE 1 = Some (lit ''activated'')
   \<and> CHARGING_STATE 2 = Some (lit ''mppt'')
   \<and> CHARGING_STATE 3 = Some (lit ''equalizing'')
   \<and> CHARGING_STATE 4 = Some (lit ''boost'')
   \<and> CHARGING_STATE 5 = Some (lit ''floating'')
   \<and> CHARGING_STATE 6 = Some (lit ''current limiting'')
   \<and> CHARGING_STATE 8 = Some (lit ''alternator direct'')
   \<and> dom BATTERY_TYPE = {1, 2, 3, 4, 5}
   \<and> BATTERY_TYPE 1 = Some (lit ''open'')
   \<and> BATTERY_TYPE 2 = Some (lit ''sealed'')
   \<and> BATTERY_TYPE 3 = Some (lit ''gel'')
   \<and> BATTERY_TYPE 4 = Some (lit ''lithium'')
   \<and> BATTERY_TYPE 5 = Some (lit ''custom'')
   \<and> (3 \<le> length bs \<longrightarrow>
        DCChargerDevice_parse_section self bs 2 =
          Inr (self, \<lparr>valid = True, entities =
            [\<lparr>device_id = 1, device_name = ha_device_name self,
              device_unique_id = entity_unique_id self 25, device_type = STRING_DATA,
              name = lit ''Charge State'',
              state = str_or_none (CHARGING_STATE (uint (bs ! 2))),
              is_main = False, attributes = []\<rparr>]\<rparr>))
   \<and> (5 \<le> length bs \<longrightarrow>
        DCChargerDevice_parse_section self bs 3 =
          Inr (self\<lparr>battery_type := BATTERY_TYPE (256 * uint (bs ! 3) + uint (bs ! 4))\<rparr>,
               \<lparr>valid = True, entities = []\<rparr>))"
proof -
  have tables: "CHARGING_STATE 0 = Some (lit ''deactivated'')"
    "CHARGING_STATE 1 = Some (lit ''activated'')"
    "CHARGING_STATE 2 = Some (lit ''mppt'')"
    "CHARGING_STATE 3 = Some (lit ''equalizing'')"
    "CHARGING_STATE 4 = Some (lit ''boost'')"
    "CHARGING_STATE 5 = Some (lit ''floating'')"
    "CHARGING_STATE 6 = Some (lit ''current limiting'')"
    "CHARGING_STATE 8 = Some (lit ''alternator direct'')"
    "BATTERY_TYPE 1 = Some (lit ''open'')"
    "BATTERY_TYPE 2 = Some (lit ''sealed'')"
    "BATTERY_TYPE 3 = Some (lit ''gel'')"
    "BATTERY_TYPE 4 = Some (lit ''lithium'')"
    "BATTERY_TYPE 5 = Some (lit ''custom'')"
    by (simp_all add: CHARGING_STATE_def BATTERY_TYPE_def)
  have card: "card (dom CHARGING_STATE) = 8"
    unfolding CHARGING_STATE_dom by simp
  have st: "DCChargerDevice_parse_section self bs 2 =
      Inr (self, \<lparr>valid = True, entities =
        [\<lparr>device_id = 1, device_name = ha_device_name self,
          device_unique_id = entity_unique_id self 25, device_type = STRING_DATA,
          name = lit ''Charge State'',
          state = str_or_none (CHARGING_STATE (uint (bs ! 2))),
          is_main = False, attributes = []\<rparr>]\<rparr>)" if "3 \<le> length bs"
  proof -
    have "bytes_to_int bs 2 1 False = Inr (uint (bs ! 2))"
      using that by (intro bytes_to_int_1) simp
    then show ?thesis
      by (simp add: DCChargerDevice_parse_section_def parse_state_def return_entities_def
          entity_def dict_get_def)
  qed
  have bt: "DCChargerDevice_parse_section self bs 3 =
      Inr (self\<lparr>battery_type := BATTERY_TYPE (256 * uint (bs ! 3) + uint (bs ! 4))\<rparr>,
           \<lparr>valid = True, entities = []\<rparr>)" if "5 \<le> length bs"
  proof -
    have "bytes_to_int bs 3 2 False = Inr (256 * uint (bs ! 3) + uint (bs ! (3 + 1)))"
      using that by (intro bytes_to_int_2) simp
    then show ?thesis
      by (simp add: DCChargerDevice_parse_section_def parse_battery_type_def)
  qed
  show ?thesis
    using CHARGING_STATE_dom BATTERY_TYPE_dom card tables st bt by blast
qed

theorem dc_charger_tables_witness:
  "DCChargerDevice_parse_section (DCChargerDevice_init [] [] []) [255, 3, 8] 2 =
     Inr (DCChargerDevice_init [] [] [], \<lparr>valid = True, entities =
       [\<lparr>device_id = 1, device_name = lit ''Renogy DC-DC Charger'',
         device_unique_id = lit ''renogy__id_25'', device_type = STRING_DATA,
         name = lit ''Charge State'', state = PStr (lit ''alternator direct''),
         is_main = False, attributes = []\<rparr>]\<rparr>)
   \<and> battery_type (fst (projr (DCChargerDevice_parse_section (DCChargerDevice_init [] [] [])
          [255, 3, 2, 0, 4] 3))) = Some (lit ''lithium'')"
proof -
  let ?s = "DCChargerDevice_init [] [] []"
  have a: "(3::nat) \<le> length [255, 3, 8 :: byte]" and b: "(5::nat) \<le> length [255, 3, 2, 0, 4 :: byte]"
    by simp_all
  have uid: "entity_unique_id ?s 25 = lit ''renogy__id_25''"
    by code_simp
  have hdn: "ha_device_name ?s = lit ''Renogy DC-DC Charger''"
    by (simp add: DCChargerDevice_init_def)
  have t: "CHARGING_STATE 8 = Some (lit ''alternator direct'')" "BATTERY_TYPE 4 = Some (lit ''lithium'')"
    using dc_charger_tables [of "[255, 3, 8]" ?s] by blast+
  have "DCChargerDevice_parse_section ?s [255, 3, 8] 2 =
     Inr (?s, \<lparr>valid = True, entities =
       [\<lparr>device_id = 1, device_name = ha_device_name ?s,
         device_unique_id = entity_unique_id ?s 25, device_type = STRING_DATA,
         name = lit ''Charge State'', state = str_or_none (CHARGING_STATE (uint ([255, 3, 8 :: byte] ! 2))),
         is_main = False, attributes = []\<rparr>]\<rparr>)"
    using dc_charger_tables [of "[255, 3, 8]" ?s] a by blast
  moreover have "DCChargerDevice_parse_section ?s [255, 3, 2, 0, 4] 3 =
     Inr (?s\<lparr>battery_type := BATTERY_TYPE (256 * uint ([255, 3, 2, 0, 4 :: byte] ! 3) + uint ([255, 3, 2, 0, 4 :: byte] ! 4))\<rparr>,
               \<lparr>valid = True, entities = []\<rparr>)"
    using dc_charger_tables [of "[255, 3, 2, 0, 4]" ?s] b by blast
  ultimately show ?thesis
    by (simp add: uid hdn t str_or_none_def)
qed

lemma lit_eq_iff: "lit a = lit b \<longleftrightarrow> a = b"
proof -
  have "inj (of_char :: char \<Rightarrow> nat)"
    by (rule injI) simp
  then show ?thesis
    unfolding lit_def by (simp add: inj_map_eq_map)
qed

text \<open>
  Claim C10. On a DC-DC charger, a battery-type section whose code is none of 1 to 5 is
  decoded without error and leaves the cached battery type \<open>None\<close>, and a charging-info
  section decoded after it carries \<open>None\<close> as the \<open>battery_type\<close> attribute of its one
  primary measurement. A state section whose code has no entry in the charging-state
  table is decoded without error into a \<open>Charge State\<close> measurement whose value is
  \<open>None\<close>.
\<close>

theorem dc_charger_unknown_codes:
  assumes dc: "cls self = DCChargerDevice"
  shows "(bytes_to_int bs3 3 2 False = Inr code3 \<and> code3 \<notin> {1, 2, 3, 4, 5} \<longrightarrow>
            parse_section self bs3 3
              = Inr (self\<lparr>battery_type := None\<rparr>, \<lparr>valid = True, entities = []\<rparr>)
            \<and> (\<forall>bs4 self2 r.
                  parse_section (self\<lparr>battery_type := None\<rparr>) bs4 4 = Inr (self2, r) \<longrightarrow>
                  (\<exists>e. filter is_main (entities r) = [e]
                     \<and> map_of (attributes e) (lit ''battery_type'') = Some PNone)))
       \<and> (bytes_to_int bs2 2 1 False = Inr code2 \<and> CHARGING_STATE code2 = None \<longrightarrow>
            (\<exists>e. parse_section self bs2 2 = Inr (self, \<lparr>valid = True, entities = [e]\<rparr>)
               \<and> name e = lit ''Charge State'' \<and> state e = PNone))"
proof (intro conjI impI allI; (elim conjE)?)
  assume c: "bytes_to_int bs3 3 2 False = Inr code3" and out: "code3 \<notin> {1, 2, 3, 4, 5}"
  have "BATTERY_TYPE code3 = None"
    using out BATTERY_TYPE_dom by blast
  then show "parse_section self bs3 3
      = Inr (self\<lparr>battery_type := None\<rparr>, \<lparr>valid = True, entities = []\<rparr>)"
    using c dc by (simp add: parse_section_def DCChargerDevice_parse_section_def
        parse_battery_type_def)
next
  fix bs4 self2 r
  assume "parse_section (self\<lparr>battery_type := None\<rparr>) bs4 4 = Inr (self2, r)"
  then have "parse_charging_info (self\<lparr>battery_type := None\<rparr>) bs4 = Inr (self2, r)"
    using dc by (simp add: parse_section_def DCChargerDevice_parse_section_def)
  from parse_charging_info_main [OF this]
  show "\<exists>e. filter is_main (entities r) = [e]
      \<and> map_of (attributes e) (lit ''battery_type'') = Some PNone"
    by (auto simp: str_or_none_def lit_eq_iff)
next
  assume c: "bytes_to_int bs2 2 1 False = Inr code2" and none: "CHARGING_STATE code2 = None"
  show "\<exists>e. parse_section self bs2 2 = Inr (self, \<lparr>valid = True, entities = [e]\<rparr>)
      \<and> name e = lit ''Charge State'' \<and> state e = PNone"
    using c none dc
    by (simp add: parse_section_def DCChargerDevice_parse_section_def parse_state_def
        return_entities_def entity_def dict_get_def str_or_none_def)
qed

theorem dc_charger_unknown_codes_witness:
  "battery_type (DCChargerDevice_init [] [] []) = Some (lit ''Unknown'')
   \<and> parse_section (DCChargerDevice_init [] [] []) [255, 3, 2, 0, 9] 3
       = Inr ((DCChargerDevice_init [] [] [])\<lparr>battery_type := None\<rparr>,
              \<lparr>valid = True, entities = []\<rparr>)
   \<and> (\<exists>e. parse_section (DCChargerDevice_init [] [] []) [255, 3, 7] 2
             = Inr (DCChargerDevice_init [] [] [], \<lparr>valid = True, entities = [e]\<rparr>)
          \<and> name e = lit ''Charge State'' \<and> state e = PNone)"
proof -
  let ?s = "DCChargerDevice_init [] [] []"
  have dc: "cls ?s = DCChargerDevice" and bt: "battery_type ?s = Some (lit ''Unknown'')"
    by (simp_all add: DCChargerDevice_init_def RenogyDevice_init_def)
  have c3: "bytes_to_int [255, 3, 2, 0, 9] 3 2 False = Inr 9"
    using bytes_to_int_2 [of 3 "[255, 3, 2, 0, 9]"] by simp
  have out: "(9::int) \<notin> {1, 2, 3, 4, 5}"
    by simp
  have c2: "bytes_to_int [255, 3, 7] 2 1 False = Inr 7"
    using bytes_to_int_1 [of 2 "[255, 3, 7]"] by simp
  have none: "CHARGING_STATE 7 = None"
    by (simp add: CHARGING_STATE_def)
  show ?thesis
    using dc_charger_unknown_codes [OF dc, of "[255, 3, 2, 0, 9]" 9 "[255, 3, 7]" 7]
      c3 out c2 none bt by blast
qed

section \<open>Decoders that take one frame only\<close>

lemma bytes_to_int_scaled_ok:
  "off + len \<le> length bs \<Longrightarrow> \<exists>x. bytes_to_int_scaled bs off len scale sg = Inr x"
  by (simp add: bytes_to_int_scaled_def bytes_to_int_def Let_def)

lemma entity_unique_id_first_parse:
  "entity_unique_id (s\<lparr>first_parse := b\<rparr>) n = entity_unique_id s n"
  by (simp add: entity_unique_id_def device_unique_id'_def)

lemma ShuntDevice_parse_section_ok:
  assumes fp: "first_parse s" and len: "110 \<le> length bs"
  shows "\<exists>es. ShuntDevice_parse_section s bs 0
             = Inr (s\<lparr>first_parse := False\<rparr>, \<lparr>valid = True, entities = es\<rparr>)
           \<and> map is_main es = [True, False, False, False, False, False]
           \<and> map device_unique_id es = map (entity_unique_id s) [1, 2, 3, 4, 5, 6]"
proof -
  obtain v34 where v34: "bytes_to_int_scaled bs 34 2 (FLit 1 1) False = Inr v34"
    using bytes_to_int_scaled_ok [of 34 2 bs] len by auto
  obtain v25 where v25: "bytes_to_int_scaled bs 25 3 (FLit 1 3) False = Inr v25"
    using bytes_to_int_scaled_ok [of 25 3 bs] len by auto
  obtain v30 where v30: "bytes_to_int_scaled bs 30 2 (FLit 1 3) False = Inr v30"
    using bytes_to_int_scaled_ok [of 30 2 bs] len by auto
  obtain v21 where v21: "bytes_to_int_scaled bs 21 3 (FLit 1 3) True = Inr v21"
    using bytes_to_int_scaled_ok [of 21 3 bs] len by auto
  obtain v66 where v66: "bytes_to_int_scaled bs 66 2 (FLit 1 1) False = Inr v66"
    using bytes_to_int_scaled_ok [of 66 2 bs] len by auto
  show ?thesis
    using fp len unfolding ShuntDevice_parse_section_def Let_def v34 v25 v30 v21 v66
    by (simp add: return_entities_def entity_def float_state_def float_mul_def
        entity_unique_id_first_parse)
qed

lemma ShuntDevice_parse_section_short:
  "length bs < 110 \<Longrightarrow> ShuntDevice_parse_section s bs i = Inr (s, \<lparr>valid = False, entities = []\<rparr>)"
  by (simp add: ShuntDevice_parse_section_def invalid_def)

lemma ShuntDevice_parse_section_latched:
  "\<not> first_parse s \<Longrightarrow> ShuntDevice_parse_section s bs i = Inr (s, \<lparr>valid = False, entities = []\<rparr>)"
  by (simp add: ShuntDevice_parse_section_def invalid_def)

lemma TestDevice_parse_section_ok:
  assumes fp: "first_parse s"
  shows "\<exists>es. TestDevice_parse_section s bs 0
             = Inr (s\<lparr>first_parse := False\<rparr>, \<lparr>valid = True, entities = es\<rparr>)
           \<and> map is_main es = [True, False, False, False, False, False, False]
           \<and> map device_unique_id es = map (entity_unique_id s) [1, 2, 3, 4, 5, 6, 7]"
  using fp unfolding TestDevice_parse_section_def Let_def
  by (simp add: return_entities_def entity_def float_state_def float_mul_def
        entity_unique_id_first_parse)

lemma TestDevice_parse_section_latched:
  "\<not> first_parse s \<Longrightarrow> TestDevice_parse_section s bs i = Inr (s, \<lparr>valid = False, entities = []\<rparr>)"
  by (simp add: TestDevice_parse_section_def invalid_def)

lemma init_fields:
  "cls (InverterDevice_init m d n) = InverterDevice"
  "cls (DCChargerDevice_init m d n) = DCChargerDevice"
  "cls (ShuntDevice_init m d n) = ShuntDevice"
  "cls (TestDevice_init m d n) = TestDevice"
  "first_parse (ShuntDevice_init m d n)"
  "first_parse (TestDevice_init m d n)"
  by (simp_all add: InverterDevice_init_def DCChargerDevice_init_def ShuntDevice_init_def
      TestDevice_init_def RenogyDevice_init_def)

text \<open>
  Claim C4, amended. From a fresh session and at section index 0: the test decoder calls
  the first payload valid and the second invalid, whatever the two payloads are; the
  shunt decoder does so whenever the first payload has at least 110 bytes, whatever the
  second is; and a first payload of fewer than 110 bytes is invalid for the shunt
  decoder and leaves the session as it was.
\<close>

theorem single_valid_frame:
  "(\<exists>s1 r1 s2 r2.
       parse_section (TestDevice_init m d n) p1 0 = Inr (s1, r1) \<and> valid r1
       \<and> parse_section s1 p2 0 = Inr (s2, r2) \<and> \<not> valid r2)
   \<and> (110 \<le> length p1 \<longrightarrow>
        (\<exists>s1 r1 s2 r2.
           parse_section (ShuntDevice_init m d n) p1 0 = Inr (s1, r1) \<and> valid r1
           \<and> parse_section s1 p2 0 = Inr (s2, r2) \<and> \<not> valid r2))
   \<and> (length p1 < 110 \<longrightarrow>
        parse_section (ShuntDevice_init m d n) p1 0
          = Inr (ShuntDevice_init m d n, \<lparr>valid = False, entities = []\<rparr>))"
proof (intro conjI impI)
  obtain es where "TestDevice_parse_section (TestDevice_init m d n) p1 0
      = Inr ((TestDevice_init m d n)\<lparr>first_parse := False\<rparr>, \<lparr>valid = True, entities = es\<rparr>)"
    using TestDevice_parse_section_ok [of "TestDevice_init m d n" p1]
    by (auto simp: init_fields)
  moreover have "TestDevice_parse_section ((TestDevice_init m d n)\<lparr>first_parse := False\<rparr>) p2 0
      = Inr ((TestDevice_init m d n)\<lparr>first_parse := False\<rparr>, \<lparr>valid = False, entities = []\<rparr>)"
    by (rule TestDevice_parse_section_latched) simp
  ultimately show "\<exists>s1 r1 s2 r2.
       parse_section (TestDevice_init m d n) p1 0 = Inr (s1, r1) \<and> valid r1
       \<and> parse_section s1 p2 0 = Inr (s2, r2) \<and> \<not> valid r2"
    by (simp add: parse_section_def init_fields)
next
  assume "110 \<le> length p1"
  then obtain es where "ShuntDevice_parse_section (ShuntDevice_init m d n) p1 0
      = Inr ((ShuntDevice_init m d n)\<lparr>first_parse := False\<rparr>, \<lparr>valid = True, entities = es\<rparr>)"
    using ShuntDevice_parse_section_ok [of "ShuntDevice_init m d n" p1]
    by (auto simp: init_fields)
  moreover have "ShuntDevice_parse_section ((ShuntDevice_init m d n)\<lparr>first_parse := False\<rparr>) p2 0
      = Inr ((ShuntDevice_init m d n)\<lparr>first_parse := False\<rparr>, \<lparr>valid = False, entities = []\<rparr>)"
    by (rule ShuntDevice_parse_section_latched) simp
  ultimately show "\<exists>s1 r1 s2 r2.
       parse_section (ShuntDevice_init m d n) p1 0 = Inr (s1, r1) \<and> valid r1
       \<and> parse_section s1 p2 0 = Inr (s2, r2) \<and> \<not> valid r2"
    by (simp add: parse_section_def init_fields)
next
  assume "length p1 < 110"
  then show "parse_section (ShuntDevice_init m d n) p1 0
      = Inr (ShuntDevice_init m d n, \<lparr>valid = False, entities = []\<rparr>)"
    by (simp add: parse_section_def ShuntDevice_parse_section_short init_fields)
qed

theorem single_valid_frame_witness:
  "(\<exists>s1 r1 s2 r2.
      parse_section (ShuntDevice_init [] [] []) (replicate 110 0) 0 = Inr (s1, r1) \<and> valid r1
      \<and> parse_section s1 (replicate 110 0) 0 = Inr (s2, r2) \<and> \<not> valid r2)
   \<and> parse_section (ShuntDevice_init [] [] []) (replicate 20 0) 0
       = Inr (ShuntDevice_init [] [] [], \<lparr>valid = False, entities = []\<rparr>)"
proof -
  have a: "110 \<le> length (replicate 110 (0::byte))" and b: "length (replicate 20 (0::byte)) < 110"
    by simp_all
  show ?thesis
    using single_valid_frame [of "[]" "[]" "[]" "replicate 110 0" "replicate 110 0"]
      single_valid_frame [of "[]" "[]" "[]" "replicate 20 0" "[]"] a b
    by blast
qed

text \<open>
  Claim C4, as stated, fails for the shunt decoder: a first payload of 20 bytes, fed to a
  fresh session at section index 0, is not valid.
\<close>

theorem single_valid_frame_counterexample:
  "parse_section (ShuntDevice_init [] [] []) (replicate 20 0) 0
     = Inr (ShuntDevice_init [] [] [], \<lparr>valid = False, entities = []\<rparr>)"
  by (simp add: parse_section_def ShuntDevice_parse_section_short init_fields)

section \<open>Notifications\<close>

text \<open>
  What a decoder can do to the object: it assigns to \<open>model\<close>, \<open>battery_type\<close> and
  \<open>first_parse\<close> at most, and to nothing when it calls the payload invalid. The shunt
  and the test decoder, which assign before they build their list, never raise.
\<close>

lemma parse_section_frame:
  assumes "parse_section self bs i = Inr (s, r)"
  shows "s = self\<lparr>model := model s, battery_type := battery_type s,
                  first_parse := first_parse s\<rparr>
         \<and> (valid r \<or> (s = self \<and> entities r = []))"
proof -
  let ?P = "\<lambda>s r. s = self\<lparr>model := model s, battery_type := battery_type s,
                  first_parse := first_parse s\<rparr>
         \<and> (valid r \<or> (s = self \<and> entities r = []))"
  have ret: "?P s r" if "return_entities self items = Inr (s, r)" for items
    using that by (auto simp: return_entities_Inr)
  have inv: "?P s r" if "invalid self = Inr (s, r)"
    using that by (auto simp: invalid_def)
  have dc: "?P s r" if "DCChargerDevice_parse_section self bs i = Inr (s, r)"
  proof -
    have "?P s r" if "parse_device_info self bs = Inr (s, r)"
      using that by (auto simp: parse_device_info_def split: sum.splits)
    moreover have "?P s r" if "parse_battery_type self bs = Inr (s, r)"
      using that by (auto simp: parse_battery_type_def split: sum.splits)
    moreover have "?P s r" if "parse_device_address self bs = Inr (s, r)"
      using that unfolding parse_device_address_def by (rule ret)
    moreover have "?P s r" if "parse_state self bs = Inr (s, r)"
      using that unfolding parse_state_def by (rule ret)
    moreover have "?P s r" if "parse_charging_info self bs = Inr (s, r)"
      using that unfolding parse_charging_info_def by (rule ret)
    ultimately show ?thesis
      using that inv unfolding DCChargerDevice_parse_section_def
      by (metis (no_types, lifting))
  qed
  have iv: "?P s r" if "InverterDevice_parse_section self bs i = Inr (s, r)"
  proof -
    have "?P s r" if "parse_inverter_model self bs = Inr (s, r)"
      using that by (auto simp: parse_inverter_model_def split: sum.splits)
    moreover have "?P s r" if "parse_device_id self bs = Inr (s, r)"
      using that unfolding parse_device_id_def by (rule ret)
    moreover have "?P s r" if "parse_inverter_stats self bs = Inr (s, r)"
      using that unfolding parse_inverter_stats_def by (rule ret)
    moreover have "?P s r" if "parse_load_info self bs = Inr (s, r)"
      using that unfolding parse_load_info_def by (rule ret)
    ultimately show ?thesis
      using that inv unfolding InverterDevice_parse_section_def
      by (metis (no_types, lifting))
  qed
  have sh: "?P s r" if "ShuntDevice_parse_section self bs i = Inr (s, r)"
  proof (cases "i \<noteq> 0 \<or> \<not> first_parse self \<or> length bs < 110")
    case True
    then show ?thesis using that inv by (simp add: ShuntDevice_parse_section_def)
  next
    case False
    then show ?thesis
      using that ShuntDevice_parse_section_ok [of self bs] by auto
  qed
  have te: "?P s r" if "TestDevice_parse_section self bs i = Inr (s, r)"
  proof (cases "i \<noteq> 0 \<or> \<not> first_parse self")
    case True
    then show ?thesis using that inv by (simp add: TestDevice_parse_section_def)
  next
    case False
    then show ?thesis
      using that TestDevice_parse_section_ok [of self bs] by auto
  qed
  show ?thesis
    using assms dc iv sh te by (cases "cls self") (simp_all add: parse_section_def)
qed

lemma ShuntDevice_parse_section_total: "\<exists>s r. ShuntDevice_parse_section self bs i = Inr (s, r)"
proof (cases "i \<noteq> 0 \<or> \<not> first_parse self \<or> length bs < 110")
  case True
  then show ?thesis by (simp add: ShuntDevice_parse_section_def invalid_def)
next
  case False
  then show ?thesis
    using ShuntDevice_parse_section_ok [of self bs] by auto
qed

lemma TestDevice_parse_section_total: "\<exists>s r. TestDevice_parse_section self bs i = Inr (s, r)"
proof (cases "i \<noteq> 0 \<or> \<not> first_parse self")
  case True
  then show ?thesis by (simp add: TestDevice_parse_section_def invalid_def)
next
  case False
  then show ?thesis
    using TestDevice_parse_section_ok [of self bs] by auto
qed

text \<open>
  Claim C9. Let a notification be delivered to a session. If the accumulated list, the
  section index or the response signal is different afterwards, then the byte at offset
  1 is the read-response code the session expects and the decoder has called the payload
  valid. If the code does not match, or the decoder calls the payload invalid, the whole
  session state is as before (the first-parse latch included).
\<close>

theorem notification_callback_frame:
  "((ret_dev_data (deliver self [data]) \<noteq> ret_dev_data self
       \<or> section_index (deliver self [data]) \<noteq> section_index self
       \<or> notification_event (deliver self [data]) \<noteq> notification_event self)
      \<longrightarrow> bytes_to_int data 1 1 False = Inr (READ_OPERATION self)
          \<and> (\<exists>s r. parse_section self data (section_index self) = Inr (s, r) \<and> valid r))
   \<and> ((bytes_to_int data 1 1 False \<noteq> Inr (READ_OPERATION self)
        \<or> (\<exists>s r. parse_section self data (section_index self) = Inr (s, r) \<and> \<not> valid r))
      \<longrightarrow> deliver self [data] = self)"
proof (cases "bytes_to_int data 1 1 False")
  case (Inl e)
  then show ?thesis
    by (simp add: deliver_def notification_callback_def)
next
  case op: (Inr operation)
  show ?thesis
  proof (cases "operation = READ_OPERATION self")
    case False
    then show ?thesis
      using op by (simp add: deliver_def notification_callback_def)
  next
    case True
    show ?thesis
    proof (cases "parse_section self data (section_index self)")
      case (Inl e)
      then show ?thesis
        using op True by (simp add: deliver_def notification_callback_def)
    next
      case (Inr p)
      obtain s r where p: "p = (s, r)"
        by (cases p)
      have fr: "s = self\<lparr>model := model s, battery_type := battery_type s,
                  first_parse := first_parse s\<rparr>" "valid r \<or> (s = self \<and> entities r = [])"
        using parse_section_frame [of self data "section_index self" s r] Inr p by simp_all
      show ?thesis
      proof (cases "valid r")
        case True
        then show ?thesis
          using op \<open>operation = READ_OPERATION self\<close> Inr p
          by (simp add: deliver_def notification_callback_def)
      next
        case False
        then have "s = self"
          using fr by simp
        then show ?thesis
          using op \<open>operation = READ_OPERATION self\<close> Inr p False
          by (simp add: deliver_def notification_callback_def)
      qed
    qed
  qed
qed

theorem notification_callback_frame_witness:
  "deliver (DCChargerDevice_init [] [] []) [[255, 6, 2, 0, 1]] = DCChargerDevice_init [] [] []
   \<and> notification_event (deliver (DCChargerDevice_init [] [] []) [[255, 3, 2, 0, 1]])
   \<and> bytes_to_int [255, 3, 2, 0, 1] 1 1 False = Inr (READ_OPERATION (DCChargerDevice_init [] [] []))"
proof -
  let ?s = "DCChargerDevice_init [] [] []"
  have ro: "READ_OPERATION ?s = 3" and ev: "\<not> notification_event ?s"
    by (simp_all add: DCChargerDevice_init_def RenogyDevice_init_def)
  have "bytes_to_int [255, 6, 2, 0, 1] 1 1 False = Inr 6"
    using bytes_to_int_1 [of 1 "[255, 6, 2, 0, 1]"] by simp
  then have a: "bytes_to_int [255, 6, 2, 0, 1] 1 1 False \<noteq> Inr (READ_OPERATION ?s)"
    using ro by simp
  have b: "notification_event (deliver ?s [[255, 3, 2, 0, 1]])"
    by code_simp
  then have c: "notification_event (deliver ?s [[255, 3, 2, 0, 1]]) \<noteq> notification_event ?s"
    using ev by simp
  show ?thesis
    using notification_callback_frame [of ?s "[255, 6, 2, 0, 1]"]
      notification_callback_frame [of ?s "[255, 3, 2, 0, 1]"] a b c
    by blast
qed

section \<open>Unique ids\<close>

text \<open>
  The entities of each decoder: which of them is the main one, and their unique ids, in
  the order of the list.
\<close>

lemma parse_device_address_Inr:
  assumes "parse_device_address s bs = Inr (t, r)"
  shows "t = s \<and> valid r
    \<and> map is_main (entities r) = [False]
    \<and> map device_unique_id (entities r) = map (entity_unique_id s) [2]"
  using assms unfolding parse_device_address_def return_entities_Inr collect_Inr
  by (auto simp: Cons_eq_map_conv entity_Inr)

lemma parse_charging_info_Inr:
  assumes "parse_charging_info s bs = Inr (t, r)"
  shows "t = s \<and> valid r
    \<and> map is_main (entities r) = [False, False, True, False, False, False, False, False, False, False, False, False, False, False, False, False, False, False, False, False, False, False]
    \<and> map device_unique_id (entities r) = map (entity_unique_id s) [3, 4, 5, 6, 7, 8, 9, 10, 11, 12, 13, 14, 15, 16, 17, 18, 19, 20, 21, 22, 23, 24]"
  using assms unfolding parse_charging_info_def return_entities_Inr collect_Inr
  by (auto simp: Cons_eq_map_conv entity_Inr)

lemma parse_state_Inr:
  assumes "parse_state s bs = Inr (t, r)"
  shows "t = s \<and> valid r
    \<and> map is_main (entities r) = [False]
    \<and> map device_unique_id (entities r) = map (entity_unique_id s) [25]"
  using assms unfolding parse_state_def return_entities_Inr collect_Inr
  by (auto simp: Cons_eq_map_conv entity_Inr)

lemma parse_device_id_Inr:
  assumes "parse_device_id s bs = Inr (t, r)"
  shows "t = s \<and> valid r
    \<and> map is_main (entities r) = [False]
    \<and> map device_unique_id (entities r) = map (entity_unique_id s) [2]"
  using assms unfolding parse_device_id_def return_entities_Inr collect_Inr
  by (auto simp: Cons_eq_map_conv entity_Inr)

lemma parse_inverter_stats_Inr:
  assumes "parse_inverter_stats s bs = Inr (t, r)"
  shows "t = s \<and> valid r
    \<and> map is_main (entities r) = [False, False, False, True, False, False, False, False]
    \<and> map device_unique_id (entities r) = map (entity_unique_id s) [3, 4, 5, 6, 7, 8, 9, 10]"
  using assms unfolding parse_inverter_stats_def return_entities_Inr collect_Inr
  by (auto simp: Cons_eq_map_conv entity_Inr)

lemma parse_load_info_Inr:
  assumes "parse_load_info s bs = Inr (t, r)"
  shows "t = s \<and> valid r
    \<and> map is_main (entities r) = [False, False, False, False]
    \<and> map device_unique_id (entities r) = map (entity_unique_id s) [18, 19, 20, 22]"
  using assms unfolding parse_load_info_def return_entities_Inr collect_Inr
  by (auto simp: Cons_eq_map_conv entity_Inr)


lemma DCChargerDevice_parse_section_entities:
  assumes "DCChargerDevice_parse_section s bs i = Inr (t, r)" and "valid r"
  shows "map device_unique_id (entities r) =
           map (entity_unique_id s)
             (if i = 1 then [2] else if i = 2 then [25]
              else if i = 4 then [3, 4, 5, 6, 7, 8, 9, 10, 11, 12, 13, 14, 15, 16, 17, 18, 19,
                                  20, 21, 22, 23, 24]
              else [])
         \<and> length (filter is_main (entities r)) = (if i = 4 then 1 else 0)"
proof -
  have "entities r = []" if "parse_device_info s bs = Inr (t, r)"
    using that by (auto simp: parse_device_info_def split: sum.splits)
  moreover have "entities r = []" if "parse_battery_type s bs = Inr (t, r)"
    using that by (auto simp: parse_battery_type_def split: sum.splits)
  moreover have "\<not> valid r" if "invalid s = Inr (t, r)"
    using that by (auto simp: invalid_def)
  moreover note parse_device_address_Inr [of s bs t r] parse_state_Inr [of s bs t r]
    parse_charging_info_Inr [of s bs t r]
  ultimately show ?thesis
    using assms unfolding DCChargerDevice_parse_section_def
    by (auto split: if_splits)
qed

lemma InverterDevice_parse_section_entities:
  assumes "InverterDevice_parse_section s bs i = Inr (t, r)" and "valid r"
  shows "map device_unique_id (entities r) =
           map (entity_unique_id s)
             (if i = 1 then [2] else if i = 2 then [3, 4, 5, 6, 7, 8, 9, 10]
              else if i = 3 then [18, 19, 20, 22] else [])
         \<and> length (filter is_main (entities r)) = (if i = 2 then 1 else 0)"
proof -
  have "entities r = []" if "parse_inverter_model s bs = Inr (t, r)"
    using that by (auto simp: parse_inverter_model_def split: sum.splits)
  moreover have "\<not> valid r" if "invalid s = Inr (t, r)"
    using that by (auto simp: invalid_def)
  moreover note parse_device_id_Inr [of s bs t r] parse_inverter_stats_Inr [of s bs t r]
    parse_load_info_Inr [of s bs t r]
  ultimately show ?thesis
    using assms unfolding InverterDevice_parse_section_def
    by (auto split: if_splits)
qed

lemma ShuntDevice_parse_section_entities:
  assumes "ShuntDevice_parse_section s bs i = Inr (t, r)" and "valid r"
  shows "map device_unique_id (entities r) = map (entity_unique_id s) [1, 2, 3, 4, 5, 6]
         \<and> length (filter is_main (entities r)) = 1 \<and> i = 0"
proof (cases "i \<noteq> 0 \<or> \<not> first_parse s \<or> length bs < 110")
  case True
  then show ?thesis
    using assms by (auto simp: ShuntDevice_parse_section_def invalid_def)
next
  case False
  then obtain es where "ShuntDevice_parse_section s bs i
      = Inr (s\<lparr>first_parse := False\<rparr>, \<lparr>valid = True, entities = es\<rparr>)"
    "map is_main es = [True, False, False, False, False, False]"
    "map device_unique_id es = map (entity_unique_id s) [1, 2, 3, 4, 5, 6]"
    using ShuntDevice_parse_section_ok [of s bs] by auto
  then show ?thesis
    using assms False by (auto simp: Cons_eq_map_conv)
qed

lemma TestDevice_parse_section_entities:
  assumes "TestDevice_parse_section s bs i = Inr (t, r)" and "valid r"
  shows "map device_unique_id (entities r) = map (entity_unique_id s) [1, 2, 3, 4, 5, 6, 7]
         \<and> length (filter is_main (entities r)) = 1 \<and> i = 0"
proof (cases "i \<noteq> 0 \<or> \<not> first_parse s")
  case True
  then show ?thesis
    using assms by (auto simp: TestDevice_parse_section_def invalid_def)
next
  case False
  then obtain es where "TestDevice_parse_section s bs i
      = Inr (s\<lparr>first_parse := False\<rparr>, \<lparr>valid = True, entities = es\<rparr>)"
    "map is_main es = [True, False, False, False, False, False, False]"
    "map device_unique_id es = map (entity_unique_id s) [1, 2, 3, 4, 5, 6, 7]"
    using TestDevice_parse_section_ok [of s bs] by auto
  then show ?thesis
    using assms False by (auto simp: Cons_eq_map_conv)
qed

text \<open>
  Claim C7, amended. The unique id of every measurement that a decoder of any device
  family emits is \<open>renogy_\<close>, then the controller's address in lower case with each
  colon replaced by an underscore, then \<open>_id_\<close> and the decimal entity index, a number
  between 1 and 25. The indices depend on the family and the section only: two valid
  decodings of the same section by sessions of the same family and address give the
  same unique ids in the same order, whatever the payloads and the rest of the state.
\<close>

theorem unique_id_stable:
  assumes p1: "parse_section s1 bs1 i = Inr (t1, r1)" and v1: "valid r1"
    and p2: "parse_section s2 bs2 i = Inr (t2, r2)" and v2: "valid r2"
    and c: "cls s1 = cls s2" and m: "mac s1 = mac s2"
  shows "map device_unique_id (entities r1) = map device_unique_id (entities r2)
    \<and> (\<forall>e \<in> set (entities r1). \<exists>k. 1 \<le> k \<and> k \<le> 25
          \<and> device_unique_id e =
              lit ''renogy_''
                @ py_replace (of_char CHR '':'') (of_char CHR ''_'') (py_lower (mac s1))
                @ lit ''_id_'' @ py_str k)"
proof -
  have eq: "entity_unique_id s1 = entity_unique_id s2"
    using m by (intro ext) (simp add: entity_unique_id_def device_unique_id'_def)
  have fmt: "entity_unique_id s1 k =
      lit ''renogy_'' @ py_replace (of_char CHR '':'') (of_char CHR ''_'') (py_lower (mac s1))
        @ lit ''_id_'' @ py_str k" for k
    by (simp add: entity_unique_id_def device_unique_id'_def lit_def)
  obtain ids where ids: "map device_unique_id (entities r1) = map (entity_unique_id s1) ids"
    "map device_unique_id (entities r2) = map (entity_unique_id s2) ids"
    "\<forall>k \<in> set ids. 1 \<le> k \<and> k \<le> 25"
  proof (cases "cls s1")
    case InverterDevice
    show ?thesis
      using InverterDevice c assms(1-4)
        InverterDevice_parse_section_entities [of s1 bs1 i t1 r1]
        InverterDevice_parse_section_entities [of s2 bs2 i t2 r2]
      by (intro that [of "if i = 1 then [2] else if i = 2 then [3, 4, 5, 6, 7, 8, 9, 10]
              else if i = 3 then [18, 19, 20, 22] else []"]) (auto simp: parse_section_def)
  next
    case DCChargerDevice
    show ?thesis
      using DCChargerDevice c assms(1-4)
        DCChargerDevice_parse_section_entities [of s1 bs1 i t1 r1]
        DCChargerDevice_parse_section_entities [of s2 bs2 i t2 r2]
      by (intro that [of "if i = 1 then [2] else if i = 2 then [25]
              else if i = 4 then [3, 4, 5, 6, 7, 8, 9, 10, 11, 12, 13, 14, 15, 16, 17, 18, 19,
                                  20, 21, 22, 23, 24]
              else []"]) (auto simp: parse_section_def)
  next
    case ShuntDevice
    show ?thesis
      using ShuntDevice c assms(1-4)
        ShuntDevice_parse_section_entities [of s1 bs1 i t1 r1]
        ShuntDevice_parse_section_entities [of s2 bs2 i t2 r2]
      by (intro that [of "[1, 2, 3, 4, 5, 6]"]) (simp_all add: parse_section_def)
  next
    case TestDevice
    show ?thesis
      using TestDevice c assms(1-4)
        TestDevice_parse_section_entities [of s1 bs1 i t1 r1]
        TestDevice_parse_section_entities [of s2 bs2 i t2 r2]
      by (intro that [of "[1, 2, 3, 4, 5, 6, 7]"]) (simp_all add: parse_section_def)
  qed
  have "\<exists>k. 1 \<le> k \<and> k \<le> 25 \<and> device_unique_id e = entity_unique_id s1 k"
    if "e \<in> set (entities r1)" for e
  proof -
    have "device_unique_id e \<in> set (map device_unique_id (entities r1))"
      using that by simp
    then have "device_unique_id e \<in> entity_unique_id s1 ` set ids"
      unfolding ids(1) by simp
    then show ?thesis
      using ids(3) by auto
  qed
  then show ?thesis
    using ids eq fmt by simp
qed

theorem unique_id_stable_witness:
  "map device_unique_id
     (entities (snd (projr (parse_section
        (ShuntDevice_init (lit ''AA:BB:CC:DD:EE:FF'') [] []) (replicate 110 0) 0))))
   = map device_unique_id
       (entities (snd (projr (parse_section
          (ShuntDevice_init (lit ''AA:BB:CC:DD:EE:FF'') (lit ''x'') (lit ''y''))
          (replicate 120 255) 0))))"
proof -
  let ?s1 = "ShuntDevice_init (lit ''AA:BB:CC:DD:EE:FF'') [] []"
  let ?s2 = "ShuntDevice_init (lit ''AA:BB:CC:DD:EE:FF'') (lit ''x'') (lit ''y'')"
  obtain es1 where p1: "parse_section ?s1 (replicate 110 0) 0
      = Inr (?s1\<lparr>first_parse := False\<rparr>, \<lparr>valid = True, entities = es1\<rparr>)"
    using ShuntDevice_parse_section_ok [of ?s1 "replicate 110 0"]
    by (auto simp: parse_section_def init_fields)
  obtain es2 where p2: "parse_section ?s2 (replicate 120 255) 0
      = Inr (?s2\<lparr>first_parse := False\<rparr>, \<lparr>valid = True, entities = es2\<rparr>)"
    using ShuntDevice_parse_section_ok [of ?s2 "replicate 120 255"]
    by (auto simp: parse_section_def init_fields)
  have c: "cls ?s1 = cls ?s2" and m: "mac ?s1 = mac ?s2"
    by (simp_all add: ShuntDevice_init_def RenogyDevice_init_def)
  show ?thesis
    using unique_id_stable [OF p1 _ p2 _ c m] by (simp add: p1 p2)
qed

text \<open>
  Claim C7, as stated, fails: the unique id is not made from the address with its
  colons removed. For the address \<open>AA:BB:CC:DD:EE:FF\<close> the first entity of the test
  device gets \<open>renogy_aa_bb_cc_dd_ee_ff_id_1\<close>; the same address written without colons
  has the same lower-case colon-free form but gets another unique id.
\<close>

theorem unique_id_colons_counterexample:
  "entity_unique_id (TestDevice_init (lit ''AA:BB:CC:DD:EE:FF'') [] []) 1
     = lit ''renogy_aa_bb_cc_dd_ee_ff_id_1''
   \<and> removeAll (of_char CHR '':'') (py_lower (lit ''AA:BB:CC:DD:EE:FF''))
       = removeAll (of_char CHR '':'') (py_lower (lit ''AABBCCDDEEFF''))
   \<and> entity_unique_id (TestDevice_init (lit ''AA:BB:CC:DD:EE:FF'') [] []) 1
       \<noteq> entity_unique_id (TestDevice_init (lit ''AABBCCDDEEFF'') [] []) 1"
  by code_simp

section \<open>Dispatch\<close>

text \<open>
  Claim C8, amended. For every device-type tag other than \<open>Inverter\<close>, \<open>DcDcCharger\<close>,
  \<open>SmartShunt300\<close> and \<open>TestDevice\<close>, \<open>get_devices\<close> fails: with \<open>ConfigEntryNotReady\<close>
  if the host knows no Bluetooth device for the address, and otherwise with
  \<open>APIConnectionError\<close>, the error of an empty result. It makes no session and no call
  to the transport: the link is as before.
\<close>

theorem get_devices_unknown_type:
  assumes "api_device_type api \<notin> {lit ''Inverter'', lit ''DcDcCharger'', lit ''SmartShunt300'',
                                   lit ''TestDevice''}"
  shows "get_devices api found lk =
     (case found of
        None \<Rightarrow> (Inl ConfigEntryNotReady, api\<lparr>lastUpdateValid := False\<rparr>, lk)
      | Some dev \<Rightarrow>
          (Inl APIConnectionError,
           api\<lparr>lastUpdateValid := False, api_device_name := Some (ble_name dev)\<rparr>, lk))"
  using assms by (cases found) (simp_all add: get_devices_def Let_def)

theorem get_devices_unknown_type_witness:
  "get_devices (API_init (lit ''AA:BB:CC:DD:EE:FF'') (lit ''van'') (lit ''Foo''))
     (Some \<lparr>address = lit ''AA:BB:CC:DD:EE:FF'', ble_name = lit ''BT-TH-1''\<rparr>)
     \<lparr>is_connected = Some True, ticks = [], calls = []\<rparr>
   = (Inl APIConnectionError,
      \<lparr>api_mac = lit ''AA:BB:CC:DD:EE:FF'', api_name = lit ''van'',
       api_device_name = Some (lit ''BT-TH-1''), api_device_type = lit ''Foo'',
       lastUpdateValid = False\<rparr>,
      \<lparr>is_connected = Some True, ticks = [], calls = []\<rparr>)"
proof -
  have "api_device_type (API_init (lit ''AA:BB:CC:DD:EE:FF'') (lit ''van'') (lit ''Foo''))
      \<notin> {lit ''Inverter'', lit ''DcDcCharger'', lit ''SmartShunt300'', lit ''TestDevice''}"
    by (simp add: API_init_def lit_eq_iff)
  from get_devices_unknown_type [OF this] show ?thesis
    by (simp add: API_init_def)
qed

text \<open>
  Claim C8, as stated, fails: for the tag \<open>Foo\<close> and an address the host knows, the error
  is \<open>APIConnectionError\<close>; the sources have no \<open>UnknownDeviceType\<close>.
\<close>

theorem get_devices_unknown_type_counterexample:
  "fst (get_devices (API_init (lit ''AA:BB:CC:DD:EE:FF'') (lit ''van'') (lit ''Foo''))
     (Some \<lparr>address = lit ''AA:BB:CC:DD:EE:FF'', ble_name = lit ''BT-TH-1''\<rparr>)
     \<lparr>is_connected = Some True, ticks = [], calls = []\<rparr>) = Inl APIConnectionError"
  by (simp add: get_devices_def API_init_def Let_def lit_eq_iff)

section \<open>The session without a response\<close>

lemma deliver_silent:
  "\<forall>data \<in> set t. bytes_to_int data 1 1 False \<noteq> Inr (READ_OPERATION s) \<Longrightarrow> deliver s t = s"
proof (induction t)
  case Nil
  show ?case by (simp add: deliver_def)
next
  case (Cons d t)
  have "notification_callback s d = Inr s \<or> (\<exists>e. notification_callback s d = Inl e)"
    using Cons.prems by (auto simp: notification_callback_def split: sum.splits)
  then have "deliver s (d # t) = deliver s t"
    by (auto simp: deliver_def)
  then show ?case
    using Cons by simp
qed

lemma wait_loop_silent:
  assumes "\<not> notification_event s"
    and "\<forall>t \<in> set (ticks lk). \<forall>data \<in> set t. bytes_to_int data 1 1 False \<noteq> Inr (READ_OPERATION s)"
  shows "\<exists>k. wait_loop c s lk = (s, lk\<lparr>ticks := drop k (ticks lk)\<rparr>)"
  using assms
proof (induction c s lk rule: wait_loop.induct)
  case (1 countwait self lk)
  show ?case
  proof (cases "countwait < 25")
    case False
    then have "wait_loop countwait self lk = (self, lk\<lparr>ticks := drop 0 (ticks lk)\<rparr>)"
      by (subst wait_loop.simps) simp
    then show ?thesis by blast
  next
    case True
    show ?thesis
    proof (cases "ticks lk")
      case Nil
      have "\<exists>k. wait_loop (countwait + 1) self lk = (self, lk\<lparr>ticks := drop k (ticks lk)\<rparr>)"
        using "1.IH"(1) [OF _ Nil] True "1.prems" by simp
      then show ?thesis
        using True "1.prems"(1) Nil by (subst wait_loop.simps) simp
    next
      case (Cons t ts)
      have d: "deliver self t = self"
        using "1.prems"(2) Cons by (intro deliver_silent) simp
      have "\<exists>k. wait_loop (countwait + 1) (deliver self t) (lk\<lparr>ticks := ts\<rparr>)
          = (deliver self t, lk\<lparr>ticks := ts\<rparr>\<lparr>ticks := drop k (ticks (lk\<lparr>ticks := ts\<rparr>))\<rparr>)"
        using "1.IH"(2) [OF _ Cons] True "1.prems" Cons d by simp
      then obtain k where "wait_loop (countwait + 1) self (lk\<lparr>ticks := ts\<rparr>)
          = (self, lk\<lparr>ticks := drop (Suc k) (ticks lk)\<rparr>)"
        using d Cons by auto
      then have "wait_loop countwait self lk = (self, lk\<lparr>ticks := drop (Suc k) (ticks lk)\<rparr>)"
        using True "1.prems"(1) Cons d by (subst wait_loop.simps) simp
      then show ?thesis by blast
    qed
  qed
qed


text \<open>One attempt of \<open>send_loop\<close>: the request, if there is a write characteristic, and the wait.\<close>

lemma attempt_silent:
  assumes ev: "\<not> notification_event s"
    and idx: "section_index s < length (sections s)"
    and silent: "\<forall>t \<in> set (ticks lk). \<forall>data \<in> set t.
        bytes_to_int data 1 1 False \<noteq> Inr (READ_OPERATION s)"
    and req: "create_generic_read_request (device_id' s) (function' s)
        (Some (register (sections s ! section_index s)))
        (Some (words (sections s ! section_index s))) = Some request"
    and less: "countsent < 2"
  shows "\<exists>k. send_loop countsent 0 s lk =
         send_loop (countsent + 1) 0 s
           (lk\<lparr>ticks := drop k (ticks lk),
               calls := calls lk @ (case WRITE_SERVICE_UUID s of None \<Rightarrow> []
                         | Some w \<Rightarrow> [WriteGattChar (Some w) request])\<rparr>)"
proof -
  define lk1 where "lk1 = lk\<lparr>calls := calls lk @ (case WRITE_SERVICE_UUID s of None \<Rightarrow> []
                         | Some w \<Rightarrow> [WriteGattChar (Some w) request])\<rparr>"
  have same: "s\<lparr>notification_event := False\<rparr> = s"
    using ev by simp
  have first: "(if WRITE_SERVICE_UUID s \<noteq> None then read_section s lk else (None, s, lk))
      = (None, s, lk1)"
    using idx req same by (auto simp: read_section_def Let_def lk1_def)
  have "\<forall>t \<in> set (ticks lk1). \<forall>data \<in> set t.
      bytes_to_int data 1 1 False \<noteq> Inr (READ_OPERATION s)"
    using silent by (simp add: lk1_def)
  from wait_loop_silent [OF ev this, of 0]
  obtain k where w: "wait_loop 0 s lk1 = (s, lk1\<lparr>ticks := drop k (ticks lk1)\<rparr>)"
    by blast
  have "send_loop countsent 0 s lk
      = send_loop (countsent + 1) 0 s (lk1\<lparr>ticks := drop k (ticks lk1)\<rparr>)"
    by (subst send_loop.simps)
      (simp only: less first w ev prod.case option.case if_True if_False simp_thms)
  moreover have "lk1\<lparr>ticks := drop k (ticks lk1)\<rparr>
      = lk\<lparr>ticks := drop k (ticks lk),
           calls := calls lk @ (case WRITE_SERVICE_UUID s of None \<Rightarrow> []
                         | Some w \<Rightarrow> [WriteGattChar (Some w) request])\<rparr>"
    by (simp add: lk1_def)
  ultimately show ?thesis
    by auto
qed

lemma send_loop_silent:
  assumes ev: "\<not> notification_event s"
    and idx: "section_index s < length (sections s)"
    and silent: "\<forall>t \<in> set (ticks lk). \<forall>data \<in> set t.
        bytes_to_int data 1 1 False \<noteq> Inr (READ_OPERATION s)"
    and req: "create_generic_read_request (device_id' s) (function' s)
        (Some (register (sections s ! section_index s)))
        (Some (words (sections s ! section_index s))) = Some request"
  shows "\<exists>k. send_loop 0 0 s lk =
      (None, 0, s,
       lk\<lparr>ticks := drop k (ticks lk),
           calls := calls lk @ (case WRITE_SERVICE_UUID s of None \<Rightarrow> []
                     | Some w \<Rightarrow> [WriteGattChar (Some w) request,
                                  WriteGattChar (Some w) request])\<rparr>)"
proof -
  let ?W = "case WRITE_SERVICE_UUID s of None \<Rightarrow> []
                         | Some w \<Rightarrow> [WriteGattChar (Some w) request]"
  obtain k1 where a1: "send_loop 0 0 s lk
      = send_loop (0 + 1) 0 s (lk\<lparr>ticks := drop k1 (ticks lk), calls := calls lk @ ?W\<rparr>)"
    using attempt_silent [OF ev idx silent req, of 0] by auto
  define lk1 where "lk1 = lk\<lparr>ticks := drop k1 (ticks lk), calls := calls lk @ ?W\<rparr>"
  have s1: "\<forall>t \<in> set (ticks lk1). \<forall>data \<in> set t.
      bytes_to_int data 1 1 False \<noteq> Inr (READ_OPERATION s)"
    using silent by (auto simp: lk1_def dest: in_set_dropD)
  obtain k2 where a2: "send_loop (0 + 1) 0 s lk1
      = send_loop (0 + 1 + 1) 0 s (lk1\<lparr>ticks := drop k2 (ticks lk1), calls := calls lk1 @ ?W\<rparr>)"
    using attempt_silent [OF ev idx s1 req, of "0 + 1"] by auto
  define lk2 where "lk2 = lk1\<lparr>ticks := drop k2 (ticks lk1), calls := calls lk1 @ ?W\<rparr>"
  have a3: "send_loop (0 + 1 + 1) 0 s lk2 = (None, 0, s, lk2)"
    by (subst send_loop.simps) simp
  have "send_loop 0 0 s lk = (None, 0, s, lk2)"
    using a1 a2 a3 unfolding lk1_def [symmetric] lk2_def [symmetric] by (simp only:)
  moreover have "lk2 = lk\<lparr>ticks := drop (k2 + k1) (ticks lk),
           calls := calls lk @ (case WRITE_SERVICE_UUID s of None \<Rightarrow> []
                     | Some w \<Rightarrow> [WriteGattChar (Some w) request,
                                  WriteGattChar (Some w) request])\<rparr>"
    by (simp add: lk1_def lk2_def split: option.splits)
  ultimately show ?thesis
    by (intro exI [of _ "k2 + k1"]) simp
qed

lemma create_generic_read_request_Some:
  "\<exists>request. create_generic_read_request dev fn (Some reg) (Some wc) = Some request"
  by (simp add: create_generic_read_request_def Let_def)

text \<open>
  Claim C1, amended. Take a session that is not the simulated one, has a notify
  characteristic and a section to read, and whose response signal is clear (every
  fresh inverter, charger and shunt session is such), on a link that connects and never
  delivers a notification with the expected operation code. Then the session sends the
  read request of that section exactly twice if it has a write characteristic
  (inverter, charger) and never if it has none (shunt), raises
  \<open>DeviceCommunicationError\<close>, which \<open>execute\<close> catches, disconnects, and returns the
  empty list; nothing has been accumulated.
\<close>

theorem no_response_fails:
  assumes real: "WRITE_SERVICE_UUID self \<noteq> Some (lit ''TEST'')"
    and notify: "NOTIFY_SERVICE_UUID self = Some notify_uuid"
    and idx: "section_index self < length (sections self)"
    and ev: "\<not> notification_event self"
    and conn: "is_connected lk = Some True"
    and silent: "\<forall>t \<in> set (ticks lk). \<forall>data \<in> set t.
        bytes_to_int data 1 1 False \<noteq> Inr (READ_OPERATION self)"
  shows "\<exists>request k.
      create_generic_read_request (device_id' self) (function' self)
        (Some (register (sections self ! section_index self)))
        (Some (words (sections self ! section_index self))) = Some request
      \<and> execute self (Some dev) lk =
          ([], Some DeviceCommunicationError, self\<lparr>client := True\<rparr>,
           lk\<lparr>ticks := drop k (ticks lk),
               calls := calls lk @ [EstablishConnection (address dev), StartNotify notify_uuid]
                 @ (case WRITE_SERVICE_UUID self of None \<Rightarrow> []
                    | Some w \<Rightarrow> [WriteGattChar (Some w) request,
                                 WriteGattChar (Some w) request])
                 @ [Disconnect]\<rparr>)"
proof -
  obtain request where req: "create_generic_read_request (device_id' self) (function' self)
        (Some (register (sections self ! section_index self)))
        (Some (words (sections self ! section_index self))) = Some request"
    using create_generic_read_request_Some by blast
  let ?s = "self\<lparr>client := True\<rparr>"
  let ?lk = "lk\<lparr>calls := calls lk @ [EstablishConnection (address dev)]\<rparr>
               \<lparr>calls := calls (lk\<lparr>calls := calls lk @ [EstablishConnection (address dev)]\<rparr>)
                   @ [StartNotify notify_uuid]\<rparr>"
  have ev1: "\<not> notification_event ?s" and idx1: "section_index ?s < length (sections ?s)"
    using ev idx by simp_all
  have silent1: "\<forall>t \<in> set (ticks ?lk). \<forall>data \<in> set t.
        bytes_to_int data 1 1 False \<noteq> Inr (READ_OPERATION ?s)"
    using silent by simp
  have req1: "create_generic_read_request (device_id' ?s) (function' ?s)
        (Some (register (sections ?s ! section_index ?s)))
        (Some (words (sections ?s ! section_index ?s))) = Some request"
    using req by simp
  obtain k where sl: "send_loop 0 0 ?s ?lk =
      (None, 0, ?s,
       ?lk\<lparr>ticks := drop k (ticks ?lk),
           calls := calls ?lk @ (case WRITE_SERVICE_UUID ?s of None \<Rightarrow> []
                     | Some w \<Rightarrow> [WriteGattChar (Some w) request,
                                  WriteGattChar (Some w) request])\<rparr>)"
    using send_loop_silent [OF ev1 idx1 silent1 req1] by blast
  have "section_loop ?s ?lk =
      (Some DeviceCommunicationError, ?s,
       ?lk\<lparr>ticks := drop k (ticks ?lk),
           calls := calls ?lk @ (case WRITE_SERVICE_UUID ?s of None \<Rightarrow> []
                     | Some w \<Rightarrow> [WriteGattChar (Some w) request,
                                  WriteGattChar (Some w) request])\<rparr>)"
    apply (subst section_loop.simps)
    apply (simp only: idx1 if_True sl prod.case option.case)
    apply simp
    done
  then have "execute self (Some dev) lk =
          ([], Some DeviceCommunicationError, self\<lparr>client := True\<rparr>,
           lk\<lparr>ticks := drop k (ticks lk),
               calls := calls lk @ [EstablishConnection (address dev), StartNotify notify_uuid]
                 @ (case WRITE_SERVICE_UUID self of None \<Rightarrow> []
                    | Some w \<Rightarrow> [WriteGattChar (Some w) request,
                                 WriteGattChar (Some w) request])
                 @ [Disconnect]\<rparr>)"
    using real notify conn by (simp add: execute_def Let_def caught_def)
  then show ?thesis
    using req by blast
qed


theorem no_response_fails_witness:
  "fst (execute (DCChargerDevice_init (lit ''AA:BB:CC:DD:EE:FF'') (lit ''BT-TH-1'') (lit ''van''))
     (Some \<lparr>address = lit ''AA:BB:CC:DD:EE:FF'', ble_name = lit ''BT-TH-1''\<rparr>)
     \<lparr>is_connected = Some True, ticks = [[[255, 6, 0, 12]], []], calls = []\<rparr>) = []
   \<and> fst (snd (execute
       (DCChargerDevice_init (lit ''AA:BB:CC:DD:EE:FF'') (lit ''BT-TH-1'') (lit ''van''))
       (Some \<lparr>address = lit ''AA:BB:CC:DD:EE:FF'', ble_name = lit ''BT-TH-1''\<rparr>)
       \<lparr>is_connected = Some True, ticks = [[[255, 6, 0, 12]], []], calls = []\<rparr>))
     = Some DeviceCommunicationError
   \<and> calls (snd (snd (snd (execute
       (DCChargerDevice_init (lit ''AA:BB:CC:DD:EE:FF'') (lit ''BT-TH-1'') (lit ''van''))
       (Some \<lparr>address = lit ''AA:BB:CC:DD:EE:FF'', ble_name = lit ''BT-TH-1''\<rparr>)
       \<lparr>is_connected = Some True, ticks = [[[255, 6, 0, 12]], []], calls = []\<rparr>))))
     = [EstablishConnection (lit ''AA:BB:CC:DD:EE:FF''),
        StartNotify (lit ''0000fff1-0000-1000-8000-00805f9b34fb''),
        WriteGattChar (Some (lit ''0000ffd1-0000-1000-8000-00805f9b34fb''))
          [255, 3, 0, 12, 0, 8, 145, 209],
        WriteGattChar (Some (lit ''0000ffd1-0000-1000-8000-00805f9b34fb''))
          [255, 3, 0, 12, 0, 8, 145, 209],
        Disconnect]"
proof -
  let ?s = "DCChargerDevice_init (lit ''AA:BB:CC:DD:EE:FF'') (lit ''BT-TH-1'') (lit ''van'')"
  let ?dev = "\<lparr>address = lit ''AA:BB:CC:DD:EE:FF'', ble_name = lit ''BT-TH-1''\<rparr>"
  let ?lk = "\<lparr>is_connected = Some True, ticks = [[[255, 6, 0, 12]], []], calls = []\<rparr>"
  have fields: "WRITE_SERVICE_UUID ?s = Some (lit ''0000ffd1-0000-1000-8000-00805f9b34fb'')"
    "NOTIFY_SERVICE_UUID ?s = Some (lit ''0000fff1-0000-1000-8000-00805f9b34fb'')"
    "section_index ?s = 0" "length (sections ?s) = 5" "\<not> notification_event ?s"
    "READ_OPERATION ?s = 3" "device_id' ?s = 255" "function' ?s = 3"
    "sections ?s ! 0 = \<lparr>register = 12, words = 8\<rparr>"
    by (simp_all add: DCChargerDevice_init_def RenogyDevice_init_def)
  have real: "WRITE_SERVICE_UUID ?s \<noteq> Some (lit ''TEST'')"
    by (simp add: fields lit_eq_iff)
  have idx: "section_index ?s < length (sections ?s)"
    by (simp add: fields)
  have conn: "is_connected ?lk = Some True"
    by simp
  have "bytes_to_int [255, 6, 0, 12] 1 1 False = Inr 6"
    using bytes_to_int_1 [of 1 "[255, 6, 0, 12]"] by simp
  then have silent: "\<forall>t \<in> set (ticks ?lk). \<forall>data \<in> set t.
      bytes_to_int data 1 1 False \<noteq> Inr (READ_OPERATION ?s)"
    by (simp add: fields)
  have frame: "create_generic_read_request 255 3 (Some 12) (Some 8)
      = Some [255, 3, 0, 12, 0, 8, 145, 209]"
    by code_simp
  obtain request k where r: "create_generic_read_request (device_id' ?s) (function' ?s)
        (Some (register (sections ?s ! section_index ?s)))
        (Some (words (sections ?s ! section_index ?s))) = Some request"
    and e: "execute ?s (Some ?dev) ?lk =
          ([], Some DeviceCommunicationError, ?s\<lparr>client := True\<rparr>,
           ?lk\<lparr>ticks := drop k (ticks ?lk),
               calls := calls ?lk @ [EstablishConnection (address ?dev),
                   StartNotify (lit ''0000fff1-0000-1000-8000-00805f9b34fb'')]
                 @ (case WRITE_SERVICE_UUID ?s of None \<Rightarrow> []
                    | Some w \<Rightarrow> [WriteGattChar (Some w) request,
                                 WriteGattChar (Some w) request])
                 @ [Disconnect]\<rparr>)"
    using no_response_fails [OF real fields(2) idx fields(5) conn silent, of ?dev] by blast
  have request: "request = [255, 3, 0, 12, 0, 8, 145, 209]"
    using r frame by (simp add: fields)
  show ?thesis
    unfolding e request by (simp add: fields)
qed

text \<open>
  Claim C1, as stated, fails for the shunt, whose session has no write characteristic:
  on a link that delivers nothing it sends no read request at all before it fails.
\<close>

theorem no_response_shunt_counterexample:
  "calls (snd (snd (snd
     (execute (ShuntDevice_init (lit ''AA:BB:CC:DD:EE:FF'') (lit ''RTMShunt'') (lit ''van''))
        (Some \<lparr>address = lit ''AA:BB:CC:DD:EE:FF'', ble_name = lit ''RTMShunt''\<rparr>)
        \<lparr>is_connected = Some True, ticks = [], calls = []\<rparr>))))
   = [EstablishConnection (lit ''AA:BB:CC:DD:EE:FF''),
      StartNotify (lit ''0000c411-0000-1000-8000-00805f9b34fb''), Disconnect]"
  by code_simp

section \<open>The primary measurement\<close>

text \<open>When the decoders of the DC-DC charger and of the inverter succeed.\<close>

lemma bytes_to_int_ok_iff:
  "(\<exists>n. bytes_to_int bs off len sg = Inr n) \<longleftrightarrow> off + len \<le> length bs"
  by (auto simp: bytes_to_int_def Let_def)

lemma entity_ok_iff:
  "(\<exists>e. entity did dname uid dtype nm st main attrs = Inr e) \<longleftrightarrow> (\<exists>v. st = Inr v)"
  by (cases st) (simp_all add: entity_def)

lemma int_state_ok_iff: "(\<exists>v. int_state x = Inr v) \<longleftrightarrow> (\<exists>n. x = Inr n)"
  by (cases x) (simp_all add: int_state_def)

lemma float_state_ok_iff: "(\<exists>v. float_state x = Inr v) \<longleftrightarrow> (\<exists>n. x = Inr n)"
  by (cases x) (simp_all add: float_state_def)

lemma dict_get_ok_iff: "(\<exists>v. dict_get tab x = Inr v) \<longleftrightarrow> (\<exists>n. x = Inr n)"
  by (cases x) (simp_all add: dict_get_def)

lemma bytes_to_int_scaled_ok_iff:
  "(\<exists>x. bytes_to_int_scaled bs off len scale sg = Inr x) \<longleftrightarrow> off + len \<le> length bs"
  using bytes_to_int_ok_iff [of bs off len sg]
  by (auto simp: bytes_to_int_scaled_def split: sum.splits)

lemma collect_ok: "(\<forall>x \<in> set items. \<exists>v. x = Inr v) \<Longrightarrow> \<exists>vs. collect items = Inr vs"
proof (induction items)
  case Nil
  show ?case by simp
next
  case (Cons x items)
  then obtain v vs where "x = Inr v" "collect items = Inr vs"
    by auto
  then show ?case by simp
qed

lemma return_entities_ok:
  "(\<forall>x \<in> set items. \<exists>v. x = Inr v)
     \<Longrightarrow> \<exists>es. return_entities s items = Inr (s, \<lparr>valid = True, entities = es\<rparr>)"
  using collect_ok [of items] by (auto simp: return_entities_def)

lemma parse_device_address_ok:
  "5 \<le> length bs \<Longrightarrow> \<exists>es. parse_device_address s bs = Inr (s, \<lparr>valid = True, entities = es\<rparr>)"
  unfolding parse_device_address_def
  by (rule return_entities_ok)
    (simp add: entity_ok_iff int_state_ok_iff float_state_ok_iff bytes_to_int_ok_iff
      bytes_to_int_scaled_ok_iff)

lemma parse_state_ok:
  "3 \<le> length bs \<Longrightarrow> \<exists>es. parse_state s bs = Inr (s, \<lparr>valid = True, entities = es\<rparr>)"
  unfolding parse_state_def
  by (rule return_entities_ok)
    (simp add: entity_ok_iff dict_get_ok_iff bytes_to_int_ok_iff)

lemma parse_charging_info_ok:
  "63 \<le> length bs \<Longrightarrow> \<exists>es. parse_charging_info s bs = Inr (s, \<lparr>valid = True, entities = es\<rparr>)"
  unfolding parse_charging_info_def
  by (rule return_entities_ok)
    (simp add: entity_ok_iff int_state_ok_iff float_state_ok_iff bytes_to_int_ok_iff
      bytes_to_int_scaled_ok_iff)

lemma parse_charging_info_percent:
  assumes "parse_charging_info s bs = Inr (t, r)"
  shows "\<exists>v e. bytes_to_int bs 3 2 False = Inr v \<and> e \<in> set (entities r)
    \<and> name e = lit ''Battery Percent'' \<and> state e = PInt v \<and> \<not> is_main e"
  using assms unfolding parse_charging_info_def return_entities_Inr collect_Inr
  by (auto simp: Cons_eq_map_conv entity_Inr int_state_def split: sum.splits)

lemma parse_device_id_ok:
  "5 \<le> length bs \<Longrightarrow> \<exists>es. parse_device_id s bs = Inr (s, \<lparr>valid = True, entities = es\<rparr>)"
  unfolding parse_device_id_def
  by (rule return_entities_ok)
    (simp add: entity_ok_iff int_state_ok_iff float_state_ok_iff bytes_to_int_ok_iff
      bytes_to_int_scaled_ok_iff)

lemma parse_inverter_stats_ok:
  "23 \<le> length bs \<Longrightarrow> \<exists>es. parse_inverter_stats s bs = Inr (s, \<lparr>valid = True, entities = es\<rparr>)"
  unfolding parse_inverter_stats_def
  by (rule return_entities_ok)
    (simp add: entity_ok_iff int_state_ok_iff float_state_ok_iff bytes_to_int_ok_iff
      bytes_to_int_scaled_ok_iff)

lemma parse_load_info_ok:
  "15 \<le> length bs \<Longrightarrow> \<exists>es. parse_load_info s bs = Inr (s, \<lparr>valid = True, entities = es\<rparr>)"
  unfolding parse_load_info_def
  by (rule return_entities_ok)
    (simp add: entity_ok_iff int_state_ok_iff float_state_ok_iff bytes_to_int_ok_iff
      bytes_to_int_scaled_ok_iff)

lemma parse_section_cls:
  assumes "parse_section s bs i = Inr (t, r)"
  shows "cls t = cls s"
proof -
  have "t = s\<lparr>model := model t, battery_type := battery_type t, first_parse := first_parse t\<rparr>"
    using parse_section_frame [OF assms] by simp
  then have "cls t = cls (s\<lparr>model := model t, battery_type := battery_type t,
      first_parse := first_parse t\<rparr>)"
    by (rule arg_cong)
  then show ?thesis by simp
qed

lemma parse_section_mains:
  assumes "parse_section s bs i = Inr (t, r)" and "valid r"
  shows "length (filter is_main (entities r)) =
     (case cls s of
        InverterDevice \<Rightarrow> if i = 2 then 1 else 0
      | DCChargerDevice \<Rightarrow> if i = 4 then 1 else 0
      | ShuntDevice \<Rightarrow> 1
      | TestDevice \<Rightarrow> 1)"
proof (cases "cls s")
  case InverterDevice
  then show ?thesis
    using assms InverterDevice_parse_section_entities [of s bs i t r]
    by (simp add: parse_section_def)
next
  case DCChargerDevice
  then show ?thesis
    using assms DCChargerDevice_parse_section_entities [of s bs i t r]
    by (simp add: parse_section_def)
next
  case ShuntDevice
  then show ?thesis
    using assms ShuntDevice_parse_section_entities [of s bs i t r]
    by (simp add: parse_section_def)
next
  case TestDevice
  then show ?thesis
    using assms TestDevice_parse_section_entities [of s bs i t r]
    by (simp add: parse_section_def)
qed

lemma add_devices_mains:
  "map is_main (ret_dev_data (add_devices s)) = map is_main (ret_dev_data s)"
  by (simp add: add_devices_def)

text \<open>
  Claim C5. For each device family, decode one payload per section in the order of the
  sections, each decoding starting from the state the one before has left, and let
  every payload be valid for its section. Then exactly one of the measurements emitted
  is marked primary: among the four lists of the inverter, the five of the DC-DC
  charger, and in the one list of the shunt and of the test device. The final step of
  a poll, \<open>add_devices\<close>, leaves the marks as they are.
\<close>

theorem one_primary_measurement:
  "(cls s0 = InverterDevice
      \<and> parse_section s0 p0 0 = Inr (s1, r0) \<and> valid r0
      \<and> parse_section s1 p1 1 = Inr (s2, r1) \<and> valid r1
      \<and> parse_section s2 p2 2 = Inr (s3, r2) \<and> valid r2
      \<and> parse_section s3 p3 3 = Inr (s4, r3) \<and> valid r3
    \<longrightarrow> length (filter is_main (entities r0 @ entities r1 @ entities r2 @ entities r3)) = 1)
   \<and> (cls s0 = DCChargerDevice
      \<and> parse_section s0 p0 0 = Inr (s1, r0) \<and> valid r0
      \<and> parse_section s1 p1 1 = Inr (s2, r1) \<and> valid r1
      \<and> parse_section s2 p2 2 = Inr (s3, r2) \<and> valid r2
      \<and> parse_section s3 p3 3 = Inr (s4, r3) \<and> valid r3
      \<and> parse_section s4 p4 4 = Inr (s5, r4) \<and> valid r4
    \<longrightarrow> length (filter is_main
          (entities r0 @ entities r1 @ entities r2 @ entities r3 @ entities r4)) = 1)
   \<and> ((cls s0 = ShuntDevice \<or> cls s0 = TestDevice)
      \<and> parse_section s0 p0 0 = Inr (s1, r0) \<and> valid r0
    \<longrightarrow> length (filter is_main (entities r0)) = 1)
   \<and> length (filter is_main (ret_dev_data (add_devices s0)))
       = length (filter is_main (ret_dev_data s0))"
proof (intro conjI impI; (elim conjE)?)
  assume c: "cls s0 = InverterDevice"
    and p: "parse_section s0 p0 0 = Inr (s1, r0)" "parse_section s1 p1 1 = Inr (s2, r1)"
      "parse_section s2 p2 2 = Inr (s3, r2)" "parse_section s3 p3 3 = Inr (s4, r3)"
    and v: "valid r0" "valid r1" "valid r2" "valid r3"
  have cs: "cls s1 = InverterDevice" "cls s2 = InverterDevice" "cls s3 = InverterDevice"
    using c p parse_section_cls by metis+
  show "length (filter is_main (entities r0 @ entities r1 @ entities r2 @ entities r3)) = 1"
    using parse_section_mains [OF p(1) v(1)] parse_section_mains [OF p(2) v(2)]
      parse_section_mains [OF p(3) v(3)] parse_section_mains [OF p(4) v(4)] c cs
    by simp
next
  assume c: "cls s0 = DCChargerDevice"
    and p: "parse_section s0 p0 0 = Inr (s1, r0)" "parse_section s1 p1 1 = Inr (s2, r1)"
      "parse_section s2 p2 2 = Inr (s3, r2)" "parse_section s3 p3 3 = Inr (s4, r3)"
      "parse_section s4 p4 4 = Inr (s5, r4)"
    and v: "valid r0" "valid r1" "valid r2" "valid r3" "valid r4"
  have cs: "cls s1 = DCChargerDevice" "cls s2 = DCChargerDevice" "cls s3 = DCChargerDevice"
    "cls s4 = DCChargerDevice"
    using c p parse_section_cls by metis+
  show "length (filter is_main
      (entities r0 @ entities r1 @ entities r2 @ entities r3 @ entities r4)) = 1"
    using parse_section_mains [OF p(1) v(1)] parse_section_mains [OF p(2) v(2)]
      parse_section_mains [OF p(3) v(3)] parse_section_mains [OF p(4) v(4)]
      parse_section_mains [OF p(5) v(5)] c cs
    by simp
next
  assume "cls s0 = ShuntDevice \<or> cls s0 = TestDevice"
    and "parse_section s0 p0 0 = Inr (s1, r0)" and "valid r0"
  then show "length (filter is_main (entities r0)) = 1"
    using parse_section_mains [of s0 p0 0 s1 r0] by auto
next
  have h: "length (filter is_main xs) = length (filter id (map is_main xs))"
    for xs :: "RenogyDeviceData list"
    by (induction xs) simp_all
  show "length (filter is_main (ret_dev_data (add_devices s0)))
       = length (filter is_main (ret_dev_data s0))"
    unfolding h [of "ret_dev_data (add_devices s0)"] h [of "ret_dev_data s0"]
      add_devices_mains ..
qed


theorem one_primary_measurement_witness:
  "(\<exists>s1 r0 s2 r1 s3 r2 s4 r3.
       parse_section (InverterDevice_init [] [] []) (replicate 21 0) 0 = Inr (s1, r0) \<and> valid r0
       \<and> parse_section s1 (replicate 7 0) 1 = Inr (s2, r1) \<and> valid r1
       \<and> parse_section s2 (replicate 25 0) 2 = Inr (s3, r2) \<and> valid r2
       \<and> parse_section s3 (replicate 17 0) 3 = Inr (s4, r3) \<and> valid r3
       \<and> length (filter is_main (entities r0 @ entities r1 @ entities r2 @ entities r3)) = 1)
   \<and> (\<exists>s1 r0 s2 r1 s3 r2 s4 r3 s5 r4.
       parse_section (DCChargerDevice_init [] [] []) (replicate 21 0) 0 = Inr (s1, r0) \<and> valid r0
       \<and> parse_section s1 (replicate 7 0) 1 = Inr (s2, r1) \<and> valid r1
       \<and> parse_section s2 (replicate 11 0) 2 = Inr (s3, r2) \<and> valid r2
       \<and> parse_section s3 (replicate 7 0) 3 = Inr (s4, r3) \<and> valid r3
       \<and> parse_section s4 (replicate 65 0) 4 = Inr (s5, r4) \<and> valid r4
       \<and> length (filter is_main
            (entities r0 @ entities r1 @ entities r2 @ entities r3 @ entities r4)) = 1)
   \<and> (\<exists>s1 r0. parse_section (ShuntDevice_init [] [] []) (replicate 110 0) 0 = Inr (s1, r0)
       \<and> valid r0 \<and> length (filter is_main (entities r0)) = 1)
   \<and> (\<exists>s1 r0. parse_section (TestDevice_init [] [] []) (map of_char ''ab232'') 0 = Inr (s1, r0)
       \<and> valid r0 \<and> length (filter is_main (entities r0)) = 1)"
proof (intro conjI)
  let ?i0 = "InverterDevice_init [] [] []"
  have zeros: "utf8_decode (take 16 (drop 3 (replicate 21 0))) = Inr (replicate 16 0)"
    by code_simp
  define i1 where "i1 = ?i0\<lparr>model := py_rstrip [0] (replicate 16 0)\<rparr>"
  have ci: "cls ?i0 = InverterDevice" "cls i1 = InverterDevice"
    by (simp_all add: i1_def init_fields)
  have q0: "parse_section ?i0 (replicate 21 0) 0 = Inr (i1, \<lparr>valid = True, entities = []\<rparr>)"
    using zeros
    by (simp add: parse_section_def InverterDevice_parse_section_def parse_inverter_model_def
        i1_def init_fields)
  obtain e1 where q1: "parse_section i1 (replicate 7 0) 1 = Inr (i1, \<lparr>valid = True, entities = e1\<rparr>)"
    using parse_device_id_ok [of "replicate 7 0" i1] ci
    by (auto simp: parse_section_def InverterDevice_parse_section_def)
  obtain e2 where q2: "parse_section i1 (replicate 25 0) 2 = Inr (i1, \<lparr>valid = True, entities = e2\<rparr>)"
    using parse_inverter_stats_ok [of "replicate 25 0" i1] ci
    by (auto simp: parse_section_def InverterDevice_parse_section_def)
  obtain e3 where q3: "parse_section i1 (replicate 17 0) 3 = Inr (i1, \<lparr>valid = True, entities = e3\<rparr>)"
    using parse_load_info_ok [of "replicate 17 0" i1] ci
    by (auto simp: parse_section_def InverterDevice_parse_section_def)
  have "length (filter is_main (entities \<lparr>valid = True, entities = []\<rparr>
      @ entities \<lparr>valid = True, entities = e1\<rparr> @ entities \<lparr>valid = True, entities = e2\<rparr>
      @ entities \<lparr>valid = True, entities = e3\<rparr>)) = 1"
    using one_primary_measurement [of ?i0 "replicate 21 0" i1 "\<lparr>valid = True, entities = []\<rparr>"
        "replicate 7 0" i1 "\<lparr>valid = True, entities = e1\<rparr>"
        "replicate 25 0" i1 "\<lparr>valid = True, entities = e2\<rparr>"
        "replicate 17 0" i1 "\<lparr>valid = True, entities = e3\<rparr>"] q0 q1 q2 q3 ci
    by simp
  then show "\<exists>s1 r0 s2 r1 s3 r2 s4 r3.
       parse_section (InverterDevice_init [] [] []) (replicate 21 0) 0 = Inr (s1, r0) \<and> valid r0
       \<and> parse_section s1 (replicate 7 0) 1 = Inr (s2, r1) \<and> valid r1
       \<and> parse_section s2 (replicate 25 0) 2 = Inr (s3, r2) \<and> valid r2
       \<and> parse_section s3 (replicate 17 0) 3 = Inr (s4, r3) \<and> valid r3
       \<and> length (filter is_main (entities r0 @ entities r1 @ entities r2 @ entities r3)) = 1"
    using q0 q1 q2 q3 by (metis parse_result.select_convs(1))
next
  let ?d0 = "DCChargerDevice_init [] [] []"
  have zeros: "utf8_decode (take 16 (drop 3 (replicate 21 0))) = Inr (replicate 16 0)"
    by code_simp
  have code: "bytes_to_int (replicate 7 0) 3 2 False = Inr 0"
    using bytes_to_int_2 [of 3 "replicate 7 0"] by simp
  define d1 where "d1 = ?d0\<lparr>model := py_strip (replicate 16 0)\<rparr>"
  define d4 where "d4 = d1\<lparr>battery_type := BATTERY_TYPE 0\<rparr>"
  have cd: "cls ?d0 = DCChargerDevice" "cls d1 = DCChargerDevice" "cls d4 = DCChargerDevice"
    by (simp_all add: d1_def d4_def init_fields)
  have q0: "parse_section ?d0 (replicate 21 0) 0 = Inr (d1, \<lparr>valid = True, entities = []\<rparr>)"
    using zeros
    by (simp add: parse_section_def DCChargerDevice_parse_section_def parse_device_info_def
        d1_def init_fields)
  obtain e1 where q1: "parse_section d1 (replicate 7 0) 1 = Inr (d1, \<lparr>valid = True, entities = e1\<rparr>)"
    using parse_device_address_ok [of "replicate 7 0" d1] cd
    by (auto simp: parse_section_def DCChargerDevice_parse_section_def)
  obtain e2 where q2: "parse_section d1 (replicate 11 0) 2 = Inr (d1, \<lparr>valid = True, entities = e2\<rparr>)"
    using parse_state_ok [of "replicate 11 0" d1] cd
    by (auto simp: parse_section_def DCChargerDevice_parse_section_def)
  have q3: "parse_section d1 (replicate 7 0) 3 = Inr (d4, \<lparr>valid = True, entities = []\<rparr>)"
    using code cd
    by (simp add: parse_section_def DCChargerDevice_parse_section_def parse_battery_type_def
        d4_def)
  obtain e4 where q4: "parse_section d4 (replicate 65 0) 4 = Inr (d4, \<lparr>valid = True, entities = e4\<rparr>)"
    using parse_charging_info_ok [of "replicate 65 0" d4] cd
    by (auto simp: parse_section_def DCChargerDevice_parse_section_def)
  have "length (filter is_main (entities \<lparr>valid = True, entities = []\<rparr>
      @ entities \<lparr>valid = True, entities = e1\<rparr> @ entities \<lparr>valid = True, entities = e2\<rparr>
      @ entities \<lparr>valid = True, entities = []\<rparr> @ entities \<lparr>valid = True, entities = e4\<rparr>)) = 1"
    using one_primary_measurement [of ?d0 "replicate 21 0" d1 "\<lparr>valid = True, entities = []\<rparr>"
        "replicate 7 0" d1 "\<lparr>valid = True, entities = e1\<rparr>"
        "replicate 11 0" d1 "\<lparr>valid = True, entities = e2\<rparr>"
        "replicate 7 0" d4 "\<lparr>valid = True, entities = []\<rparr>"
        "replicate 65 0" d4 "\<lparr>valid = True, entities = e4\<rparr>"] q0 q1 q2 q3 q4 cd
    by simp
  then show "\<exists>s1 r0 s2 r1 s3 r2 s4 r3 s5 r4.
       parse_section (DCChargerDevice_init [] [] []) (replicate 21 0) 0 = Inr (s1, r0) \<and> valid r0
       \<and> parse_section s1 (replicate 7 0) 1 = Inr (s2, r1) \<and> valid r1
       \<and> parse_section s2 (replicate 11 0) 2 = Inr (s3, r2) \<and> valid r2
       \<and> parse_section s3 (replicate 7 0) 3 = Inr (s4, r3) \<and> valid r3
       \<and> parse_section s4 (replicate 65 0) 4 = Inr (s5, r4) \<and> valid r4
       \<and> length (filter is_main
            (entities r0 @ entities r1 @ entities r2 @ entities r3 @ entities r4)) = 1"
    using q0 q1 q2 q3 q4 by (metis parse_result.select_convs(1))
next
  obtain es1 where p1: "parse_section (ShuntDevice_init [] [] []) (replicate 110 0) 0
      = Inr ((ShuntDevice_init [] [] [])\<lparr>first_parse := False\<rparr>,
             \<lparr>valid = True, entities = es1\<rparr>)"
    using ShuntDevice_parse_section_ok [of "ShuntDevice_init [] [] []" "replicate 110 0"]
    by (auto simp: parse_section_def init_fields)
  have "length (filter is_main (entities \<lparr>valid = True, entities = es1\<rparr>)) = 1"
    using one_primary_measurement [of "ShuntDevice_init [] [] []" "replicate 110 0"
        "(ShuntDevice_init [] [] [])\<lparr>first_parse := False\<rparr>"
        "\<lparr>valid = True, entities = es1\<rparr>"] p1
    by (simp add: init_fields)
  then show "\<exists>s1 r0. parse_section (ShuntDevice_init [] [] []) (replicate 110 0) 0 = Inr (s1, r0)
       \<and> valid r0 \<and> length (filter is_main (entities r0)) = 1"
    using p1 by simp
next
  obtain es2 where p2: "parse_section (TestDevice_init [] [] []) (map of_char ''ab232'') 0
      = Inr ((TestDevice_init [] [] [])\<lparr>first_parse := False\<rparr>,
             \<lparr>valid = True, entities = es2\<rparr>)"
    using TestDevice_parse_section_ok [of "TestDevice_init [] [] []" "map of_char ''ab232''"]
    by (auto simp: parse_section_def init_fields)
  have "length (filter is_main (entities \<lparr>valid = True, entities = es2\<rparr>)) = 1"
    using one_primary_measurement [of "TestDevice_init [] [] []" "map of_char ''ab232''"
        "(TestDevice_init [] [] [])\<lparr>first_parse := False\<rparr>"
        "\<lparr>valid = True, entities = es2\<rparr>"] p2
    by (simp add: init_fields)
  then show "\<exists>s1 r0. parse_section (TestDevice_init [] [] []) (map of_char ''ab232'') 0 = Inr (s1, r0)
       \<and> valid r0 \<and> length (filter is_main (entities r0)) = 1"
    using p2 by simp
qed

section \<open>The session with a response for every section\<close>

text \<open>
  One round of the section loop when the response to the first request is the only
  notification of the first sleep and the decoder calls it valid.
\<close>

lemma section_step:
  assumes w: "WRITE_SERVICE_UUID s = Some wr"
    and idx: "section_index s < length (sections s)"
    and tk: "ticks lk = [d] # rest"
    and op: "bytes_to_int d 1 1 False = Inr (READ_OPERATION s)"
    and p: "parse_section (s\<lparr>notification_event := False\<rparr>) d (section_index s) = Inr (t, r)"
    and v: "valid r"
  shows "\<exists>s1 lk1. section_loop s lk = section_loop s1 lk1
           \<and> ticks lk1 = rest \<and> is_connected lk1 = is_connected lk
           \<and> section_index s1 = section_index s + 1
           \<and> ret_dev_data s1 = ret_dev_data s @ entities r
           \<and> model s1 = model t \<and> battery_type s1 = battery_type t
           \<and> WRITE_SERVICE_UUID s1 = WRITE_SERVICE_UUID s \<and> cls s1 = cls s
           \<and> sections s1 = sections s \<and> READ_OPERATION s1 = READ_OPERATION s
           \<and> mac s1 = mac s \<and> name' s1 = name' s \<and> device_name' s1 = device_name' s
           \<and> ha_device_name s1 = ha_device_name s"
proof -
  let ?s0 = "s\<lparr>notification_event := False\<rparr>"
  let ?s1 = "t\<lparr>ret_dev_data := ret_dev_data t @ entities r, notification_event := True\<rparr>"
  obtain request where req: "create_generic_read_request (device_id' s) (function' s)
        (Some (register (sections s ! section_index s)))
        (Some (words (sections s ! section_index s))) = Some request"
    using create_generic_read_request_Some by blast
  define lk0 where "lk0 = lk\<lparr>calls := calls lk @ [WriteGattChar (Some wr) request]\<rparr>"
  define lk1 where "lk1 = lk0\<lparr>ticks := rest\<rparr>"
  have first: "(if WRITE_SERVICE_UUID s \<noteq> None then read_section s lk else (None, s, lk))
      = (None, ?s0, lk0)"
    using w idx req by (simp add: read_section_def Let_def lk0_def)
  have cb: "notification_callback ?s0 d = Inr ?s1"
    using op p v by (simp add: notification_callback_def)
  have dl: "deliver ?s0 [d] = ?s1"
    by (simp add: deliver_def cb)
  have tk0: "ticks lk0 = [d] # rest"
    using tk by (simp add: lk0_def)
  have w1: "wait_loop (0 + 1) ?s1 lk1 = (?s1, lk1)"
    by (subst wait_loop.simps) simp
  have w0: "wait_loop 0 ?s0 lk0 = (?s1, lk1)"
    apply (subst wait_loop.simps)
    apply (simp only: tk0 list.case dl lk1_def [symmetric] w1)
    apply simp
    done
  have s1: "send_loop (0 + 1) 1 ?s1 lk1 = (None, 1, ?s1, lk1)"
    by (subst send_loop.simps) simp
  have ev1: "notification_event ?s1"
    by simp
  have s0: "send_loop 0 0 s lk = (None, 1, ?s1, lk1)"
    apply (subst send_loop.simps)
    apply (simp only: first w0 prod.case option.case ev1 if_True s1)
    apply simp
    done
  have fr: "t = ?s0\<lparr>model := model t, battery_type := battery_type t,
      first_parse := first_parse t\<rparr>"
    using parse_section_frame [OF p] by simp
  define s2 where "s2 = t\<lparr>ret_dev_data := ret_dev_data t @ entities r,
      notification_event := True, section_index := section_index s + 1\<rparr>"
  have t_fields: "section_index t = section_index s" "ret_dev_data t = ret_dev_data s"
    "WRITE_SERVICE_UUID t = WRITE_SERVICE_UUID s" "cls t = cls s" "sections t = sections s"
    "READ_OPERATION t = READ_OPERATION s" "mac t = mac s" "name' t = name' s"
    "device_name' t = device_name' s" "ha_device_name t = ha_device_name s"
    by (subst fr, simp)+
  have "section_loop s lk = section_loop (?s1\<lparr>section_index := section_index ?s1 + 1\<rparr>) lk1"
    apply (subst section_loop.simps)
    apply (simp only: idx if_True s0 prod.case option.case simp_thms)
    done
  then have "section_loop s lk = section_loop s2 lk1"
    by (simp add: s2_def t_fields)
  moreover have "ticks lk1 = rest" "is_connected lk1 = is_connected lk"
    by (simp_all add: lk1_def lk0_def)
  moreover have "section_index s2 = section_index s + 1"
    "ret_dev_data s2 = ret_dev_data s @ entities r"
    "model s2 = model t" "battery_type s2 = battery_type t"
    "WRITE_SERVICE_UUID s2 = WRITE_SERVICE_UUID s" "cls s2 = cls s"
    "sections s2 = sections s" "READ_OPERATION s2 = READ_OPERATION s"
    "mac s2 = mac s" "name' s2 = name' s" "device_name' s2 = device_name' s"
    "ha_device_name s2 = ha_device_name s"
    by (simp_all add: s2_def t_fields)
  ultimately show ?thesis
    by blast
qed


lemma section_loop_done:
  "\<not> section_index s < length (sections s) \<Longrightarrow> section_loop s lk = (None, s, lk)"
  by (subst section_loop.simps) simp

lemma operation_3:
  "2 \<le> length b \<Longrightarrow> b ! 1 = 3 \<Longrightarrow> bytes_to_int b 1 1 False = Inr 3"
  using bytes_to_int_1 [of 1 b] by simp

lemma add_devices_entities:
  assumes "e \<in> set (ret_dev_data s)"
  shows "\<exists>e1 \<in> set (ret_dev_data (add_devices s)).
        name e1 = name e \<and> state e1 = state e \<and> is_main e1 = is_main e
        \<and> (\<forall>k. k \<notin> {lit ''mac'', lit ''device_name'', lit ''config_name''}
              \<longrightarrow> map_of (attributes e1) k = map_of (attributes e) k)"
proof -
  let ?f = "\<lambda>dev. if is_main dev then
                dev\<lparr>attributes :=
                  AList.update (lit ''config_name'') (PStr (name' s))
                    (AList.update (lit ''device_name'') (PStr (py_strip (device_name' s)))
                      (AList.update (lit ''mac'') (PStr (mac s)) (attributes dev)))\<rparr>
              else dev"
  have "ret_dev_data (add_devices s) = map ?f (ret_dev_data s)"
    by (simp add: add_devices_def)
  then have "?f e \<in> set (ret_dev_data (add_devices s))"
    using assms by simp
  moreover have "name (?f e) = name e \<and> state (?f e) = state e \<and> is_main (?f e) = is_main e
        \<and> (\<forall>k. k \<notin> {lit ''mac'', lit ''device_name'', lit ''config_name''}
              \<longrightarrow> map_of (attributes (?f e)) k = map_of (attributes e) k)"
    by (simp add: update_conv')
  ultimately show ?thesis
    by blast
qed

text \<open>
  Claim C3. Let a fresh DC-DC charger session run on a link that connects and answers
  each of the five read requests with one buffer: each buffer carries the read-response
  code 3 at offset 1, bytes 3 to 18 of the first are UTF-8, and the others are long
  enough for the fields read from them (5, 3, 5 and 63 bytes). Then the poll succeeds,
  and the returned list contains a primary measurement \<open>Combined Charge Current\<close> whose
  attributes hold the model, that is the decoded and stripped bytes 3 to 18 of the first
  buffer, and the battery type, that is the table entry for the 2-byte value at offset 3
  of the fourth buffer; and it contains a measurement \<open>Battery Percent\<close> whose value is
  the unsigned big-endian 2-byte value at offset 3 of the fifth buffer, unscaled.
\<close>

theorem dc_charger_happy_path:
  assumes ops: "\<forall>b \<in> {b0, b1, b2, b3, b4}. 2 \<le> length b \<and> b ! 1 = 3"
    and mdl: "utf8_decode (take 16 (drop 3 b0)) = Inr mdl"
    and len: "5 \<le> length b1" "3 \<le> length b2" "5 \<le> length b3" "63 \<le> length b4"
    and conn: "is_connected lk = Some True"
    and tk: "ticks lk = [[b0], [b1], [b2], [b3], [b4]]"
  shows "\<exists>ms self1 lk1.
      execute (DCChargerDevice_init mac_addr dname nm) (Some dev) lk = (ms, None, self1, lk1)
      \<and> (\<exists>e \<in> set ms. name e = lit ''Combined Charge Current'' \<and> is_main e
            \<and> map_of (attributes e) (lit ''model'') = Some (PStr (py_strip mdl))
            \<and> map_of (attributes e) (lit ''battery_type'')
                = Some (str_or_none (BATTERY_TYPE (256 * uint (b3 ! 3) + uint (b3 ! 4)))))
      \<and> (\<exists>e \<in> set ms. name e = lit ''Battery Percent''
            \<and> state e = PInt (256 * uint (b4 ! 3) + uint (b4 ! 4)))"
proof -
  let ?init = "DCChargerDevice_init mac_addr dname nm"
  let ?wr = "lit ''0000ffd1-0000-1000-8000-00805f9b34fb''"
  let ?nt = "lit ''0000fff1-0000-1000-8000-00805f9b34fb''"
  define S0 where "S0 = ?init\<lparr>client := True\<rparr>"
  define lk0 where "lk0 = lk\<lparr>calls := calls lk @ [EstablishConnection (address dev)]\<rparr>
      \<lparr>calls := calls (lk\<lparr>calls := calls lk @ [EstablishConnection (address dev)]\<rparr>)
          @ [StartNotify ?nt]\<rparr>"
  have S0: "WRITE_SERVICE_UUID S0 = Some ?wr" "cls S0 = DCChargerDevice"
    "section_index S0 = 0" "length (sections S0) = 5" "READ_OPERATION S0 = 3"
    "ret_dev_data S0 = []"
    by (simp_all add: S0_def DCChargerDevice_init_def RenogyDevice_init_def)
  have lk0: "ticks lk0 = [[b0], [b1], [b2], [b3], [b4]]"
    using tk by (simp add: lk0_def)
  have op: "bytes_to_int b 1 1 False = Inr 3" if "b \<in> {b0, b1, b2, b3, b4}" for b
    using ops that by (intro operation_3) auto
  \<comment> \<open>section 0: the model\<close>
  have p0: "parse_section (S0\<lparr>notification_event := False\<rparr>) b0 (section_index S0)
      = Inr (S0\<lparr>notification_event := False, model := py_strip mdl\<rparr>,
             \<lparr>valid = True, entities = []\<rparr>)"
    using mdl S0
    by (simp add: parse_section_def DCChargerDevice_parse_section_def parse_device_info_def)
  obtain S1 lk1 where S1: "section_loop S0 lk0 = section_loop S1 lk1"
    "ticks lk1 = [[b1], [b2], [b3], [b4]]" "section_index S1 = 1" "ret_dev_data S1 = []"
    "model S1 = py_strip mdl" "WRITE_SERVICE_UUID S1 = Some ?wr" "cls S1 = DCChargerDevice"
    "length (sections S1) = 5" "READ_OPERATION S1 = 3"
    using section_step [OF S0(1) _ lk0 _ p0] S0 op [of b0] by auto
  \<comment> \<open>section 1: the device address\<close>
  obtain es1 where "parse_device_address (S1\<lparr>notification_event := False\<rparr>) b1
      = Inr (S1\<lparr>notification_event := False\<rparr>, \<lparr>valid = True, entities = es1\<rparr>)"
    using parse_device_address_ok [OF len(1)] by blast
  then have p1: "parse_section (S1\<lparr>notification_event := False\<rparr>) b1 (section_index S1)
      = Inr (S1\<lparr>notification_event := False\<rparr>, \<lparr>valid = True, entities = es1\<rparr>)"
    using S1 by (simp add: parse_section_def DCChargerDevice_parse_section_def)
  obtain S2 lk2 where S2: "section_loop S1 lk1 = section_loop S2 lk2"
    "ticks lk2 = [[b2], [b3], [b4]]" "section_index S2 = 2" "ret_dev_data S2 = es1"
    "model S2 = py_strip mdl" "WRITE_SERVICE_UUID S2 = Some ?wr" "cls S2 = DCChargerDevice"
    "length (sections S2) = 5" "READ_OPERATION S2 = 3"
    using section_step [OF S1(6) _ S1(2) _ p1] S1 op [of b1] by auto
  \<comment> \<open>section 2: the state\<close>
  obtain es2 where "parse_state (S2\<lparr>notification_event := False\<rparr>) b2
      = Inr (S2\<lparr>notification_event := False\<rparr>, \<lparr>valid = True, entities = es2\<rparr>)"
    using parse_state_ok [OF len(2)] by blast
  then have p2: "parse_section (S2\<lparr>notification_event := False\<rparr>) b2 (section_index S2)
      = Inr (S2\<lparr>notification_event := False\<rparr>, \<lparr>valid = True, entities = es2\<rparr>)"
    using S2 by (simp add: parse_section_def DCChargerDevice_parse_section_def)
  obtain S3 lk3 where S3: "section_loop S2 lk2 = section_loop S3 lk3"
    "ticks lk3 = [[b3], [b4]]" "section_index S3 = 3" "ret_dev_data S3 = es1 @ es2"
    "model S3 = py_strip mdl" "WRITE_SERVICE_UUID S3 = Some ?wr" "cls S3 = DCChargerDevice"
    "length (sections S3) = 5" "READ_OPERATION S3 = 3"
    using section_step [OF S2(6) _ S2(2) _ p2] S2 op [of b2] by auto
  \<comment> \<open>section 3: the battery type\<close>
  let ?bt = "BATTERY_TYPE (256 * uint (b3 ! 3) + uint (b3 ! 4))"
  have "bytes_to_int b3 3 2 False = Inr (256 * uint (b3 ! 3) + uint (b3 ! (3 + 1)))"
    using len(3) by (intro bytes_to_int_2) simp
  then have p3: "parse_section (S3\<lparr>notification_event := False\<rparr>) b3 (section_index S3)
      = Inr (S3\<lparr>notification_event := False, battery_type := ?bt\<rparr>,
             \<lparr>valid = True, entities = []\<rparr>)"
    using S3
    by (simp add: parse_section_def DCChargerDevice_parse_section_def parse_battery_type_def)
  obtain S4 lk4 where S4: "section_loop S3 lk3 = section_loop S4 lk4"
    "ticks lk4 = [[b4]]" "section_index S4 = 4" "ret_dev_data S4 = es1 @ es2"
    "model S4 = py_strip mdl" "battery_type S4 = ?bt"
    "WRITE_SERVICE_UUID S4 = Some ?wr" "cls S4 = DCChargerDevice"
    "length (sections S4) = 5" "READ_OPERATION S4 = 3"
    using section_step [OF S3(6) _ S3(2) _ p3] S3 op [of b3] by auto
  \<comment> \<open>section 4: the charging information\<close>
  let ?S4 = "S4\<lparr>notification_event := False\<rparr>"
  obtain es4 where ci: "parse_charging_info ?S4 b4 = Inr (?S4, \<lparr>valid = True, entities = es4\<rparr>)"
    using parse_charging_info_ok [OF len(4)] by blast
  then have p4: "parse_section ?S4 b4 (section_index S4)
      = Inr (?S4, \<lparr>valid = True, entities = es4\<rparr>)"
    using S4 by (simp add: parse_section_def DCChargerDevice_parse_section_def)
  obtain S5 lk5 where S5: "section_loop S4 lk4 = section_loop S5 lk5"
    "section_index S5 = 5" "ret_dev_data S5 = es1 @ es2 @ es4" "length (sections S5) = 5"
    using section_step [OF S4(7) _ S4(2) _ p4] S4 op [of b4] by auto
  have "section_loop S0 lk0 = (None, S5, lk5)"
    using S1(1) S2(1) S3(1) S4(1) S5(1) section_loop_done [of S5 lk5] S5 by simp
  moreover have init: "WRITE_SERVICE_UUID ?init = Some ?wr" "NOTIFY_SERVICE_UUID ?init = Some ?nt"
    "?init\<lparr>client := False\<rparr> = ?init"
    by (simp_all add: DCChargerDevice_init_def RenogyDevice_init_def)
  moreover have "execute ?init (Some dev) lk =
      (case section_loop S0 lk0 of
         (Some e, self2, lk3) \<Rightarrow> caught e self2 lk3
       | (None, self2, lk3) \<Rightarrow> finish self2 (lk3\<lparr>calls := calls lk3 @ [Disconnect]\<rparr>))"
    unfolding execute_def Let_def init S0_def lk0_def using conn by (simp add: lit_eq_iff)
  ultimately have ex: "execute ?init (Some dev) lk
      = (ret_dev_data (add_devices S5), None, add_devices S5,
         lk5\<lparr>calls := calls lk5 @ [Disconnect]\<rparr>)"
    by (simp add: finish_def Let_def)
  \<comment> \<open>the two measurements\<close>
  obtain v where main: "filter is_main es4 =
       [\<lparr>device_id = 1, device_name = ha_device_name ?S4,
         device_unique_id = entity_unique_id ?S4 5, device_type = CURRENT_SENSOR,
         name = lit ''Combined Charge Current'', state = v, is_main = True,
         attributes = [(lit ''model'', PStr (model ?S4)),
                       (lit ''battery_type'', str_or_none (battery_type ?S4))]\<rparr>]"
    using parse_charging_info_main [OF ci] by auto
  define cc where "cc = \<lparr>device_id = 1, device_name = ha_device_name ?S4,
         device_unique_id = entity_unique_id ?S4 5, device_type = CURRENT_SENSOR,
         name = lit ''Combined Charge Current'', state = v, is_main = True,
         attributes = [(lit ''model'', PStr (model ?S4)),
                       (lit ''battery_type'', str_or_none (battery_type ?S4))]\<rparr>"
  have "cc \<in> set (filter is_main es4)"
    unfolding main cc_def by simp
  then have "cc \<in> set (ret_dev_data S5)"
    using S5 by simp
  from add_devices_entities [OF this]
  obtain e1 where e1: "e1 \<in> set (ret_dev_data (add_devices S5))"
    "name e1 = lit ''Combined Charge Current''" "is_main e1"
    "map_of (attributes e1) (lit ''model'') = Some (PStr (py_strip mdl))"
    "map_of (attributes e1) (lit ''battery_type'') = Some (str_or_none ?bt)"
    using S4 by (auto simp: cc_def lit_eq_iff)
  obtain pv bp where bp: "bytes_to_int b4 3 2 False = Inr pv" "bp \<in> set es4"
    "name bp = lit ''Battery Percent''" "state bp = PInt pv"
    using parse_charging_info_percent [OF ci] by auto
  have "bytes_to_int b4 3 2 False = Inr (256 * uint (b4 ! 3) + uint (b4 ! (3 + 1)))"
    using len(4) by (intro bytes_to_int_2) simp
  then have pv: "pv = 256 * uint (b4 ! 3) + uint (b4 ! 4)"
    using bp(1) by simp
  have "bp \<in> set (ret_dev_data S5)"
    using S5 bp by simp
  from add_devices_entities [OF this]
  obtain e2 where e2: "e2 \<in> set (ret_dev_data (add_devices S5))"
    "name e2 = lit ''Battery Percent''" "state e2 = PInt (256 * uint (b4 ! 3) + uint (b4 ! 4))"
    using bp pv by auto
  show ?thesis
    using ex e1 e2 by blast
qed


theorem dc_charger_happy_path_witness:
  "\<exists>ms self1 lk1.
      execute (DCChargerDevice_init (lit ''AA:BB:CC:DD:EE:FF'') (lit ''BT-TH-1'') (lit ''van''))
        (Some \<lparr>address = lit ''AA:BB:CC:DD:EE:FF'', ble_name = lit ''BT-TH-1''\<rparr>)
        \<lparr>is_connected = Some True,
         ticks = [[[255, 3, 16] @ map of_char ''RBC50D1S-G1     '' @ [0, 0]],
                  [[255, 3, 2, 0, 96, 0, 0]], [[255, 3, 6, 0, 0, 0, 0, 0, 0, 0, 0]],
                  [[255, 3, 2, 0, 4, 0, 0]], [[255, 3, 60, 0, 87] @ replicate 60 0]],
         calls = []\<rparr>
        = (ms, None, self1, lk1)
      \<and> (\<exists>e \<in> set ms. name e = lit ''Combined Charge Current'' \<and> is_main e
            \<and> map_of (attributes e) (lit ''model'') = Some (PStr (lit ''RBC50D1S-G1''))
            \<and> map_of (attributes e) (lit ''battery_type'') = Some (PStr (lit ''lithium'')))
      \<and> (\<exists>e \<in> set ms. name e = lit ''Battery Percent'' \<and> state e = PInt 87)"
proof -
  let ?b0 = "[255, 3, 16] @ map of_char ''RBC50D1S-G1     '' @ [0, 0] :: bytes"
  let ?b1 = "[255, 3, 2, 0, 96, 0, 0] :: bytes"
  let ?b2 = "[255, 3, 6, 0, 0, 0, 0, 0, 0, 0, 0] :: bytes"
  let ?b3 = "[255, 3, 2, 0, 4, 0, 0] :: bytes"
  let ?b4 = "[255, 3, 60, 0, 87] @ replicate 60 0 :: bytes"
  let ?lk = "\<lparr>is_connected = Some True, ticks = [[?b0], [?b1], [?b2], [?b3], [?b4]],
              calls = []\<rparr>"
  have ops: "\<forall>b \<in> {?b0, ?b1, ?b2, ?b3, ?b4}. 2 \<le> length b \<and> b ! 1 = 3"
    by simp
  have mdl: "utf8_decode (take 16 (drop 3 ?b0)) = Inr (lit ''RBC50D1S-G1     '')"
    by code_simp
  have strip: "py_strip (lit ''RBC50D1S-G1     '') = lit ''RBC50D1S-G1''"
    by code_simp
  have len: "5 \<le> length ?b1" "3 \<le> length ?b2" "5 \<le> length ?b3" "63 \<le> length ?b4"
    by simp_all
  have conn: "is_connected ?lk = Some True" and tk: "ticks ?lk = [[?b0], [?b1], [?b2], [?b3], [?b4]]"
    by simp_all
  have bt: "str_or_none (BATTERY_TYPE (256 * uint (?b3 ! 3) + uint (?b3 ! 4))) = PStr (lit ''lithium'')"
    by (simp add: BATTERY_TYPE_def str_or_none_def)
  have pc: "256 * uint (?b4 ! 3) + uint (?b4 ! 4) = 87"
    by simp
  show ?thesis
    using dc_charger_happy_path [OF ops mdl len conn tk,
        of "lit ''AA:BB:CC:DD:EE:FF''" "lit ''BT-TH-1''" "lit ''van''"
          "\<lparr>address = lit ''AA:BB:CC:DD:EE:FF'', ble_name = lit ''BT-TH-1''\<rparr>"]
    unfolding strip bt pc .
qed

end
